theory Spec2Isabelle
  imports Complex_Main "HOL-Library.AList"
begin

section \<open>Server side: \<open>backend/src/entities/Player.ts\<close>\<close>

text \<open>
  JavaScript numbers are modelled by their finite mathematical values: positions, speed and
  health are \<open>real\<close>, level and experience are \<open>int\<close>. On the server side and in the
  geometry of labels and bars the arithmetic is exact; rounding, infinities and NaN are
  outside the model there. The interpolation of the client (\<^verbatim>\<open>Phaser.Math.Linear\<close>) is
  modelled with the rounding of binary64, see below. An optional property of an object is
  an \<open>option\<close>; a test \<^verbatim>\<open>if (v)\<close> on an optional boolean holds exactly for
  \<open>Some True\<close>, and on an optional string exactly for a present, non-empty string.
\<close>

record vec =
  pos_x :: real
  pos_y :: real

text \<open>
  The \<^verbatim>\<open>Partial<{left, right, up, down, direction, action}>\<close> of \<^verbatim>\<open>currentInput\<close>.
  The last two fields are named \<open>inputDirection\<close> and \<open>inputAction\<close>, since the player has
  fields \<open>direction\<close> and \<open>action\<close> of its own.
\<close>

record input =
  left :: "bool option"
  right :: "bool option"
  up :: "bool option"
  down :: "bool option"
  inputDirection :: "string option"
  inputAction :: "string option"

definition emptyInput :: input where
  "emptyInput = \<lparr>left = None, right = None, up = None, down = None,
     inputDirection = None, inputAction = None\<rparr>"

definition truthy :: "bool option \<Rightarrow> bool" where
  "truthy b = (b = Some True)"

definition truthyStr :: "string option \<Rightarrow> bool" where
  "truthyStr s = (case s of None \<Rightarrow> False | Some t \<Rightarrow> t \<noteq> [])"

text \<open>\<^verbatim>\<open>interface PlayerData\<close>; the field \<^verbatim>\<open>exp\<close> is \<open>experience\<close> here.\<close>

record PlayerData =
  playerId :: string
  position :: vec
  level :: int
  experience :: int
  health :: real
  socketId :: string
  direction :: string
  action :: string

text \<open>\<^verbatim>\<open>class Player\<close>: the fields of \<^verbatim>\<open>PlayerData\<close> and three more.\<close>

record Player = PlayerData +
  isAlive :: bool
  speed :: real
  currentInput :: input

text \<open>The constructor, with the field initialisers \<^verbatim>\<open>isAlive = true\<close>, \<^verbatim>\<open>speed = 100\<close>,
  \<^verbatim>\<open>currentInput = {}\<close>.\<close>

definition newPlayer :: "PlayerData \<Rightarrow> Player" where
  "newPlayer data = \<lparr>playerId = playerId data, position = position data,
     level = level data, experience = experience data, health = health data,
     socketId = socketId data, direction = direction data, action = action data,
     isAlive = True, speed = 100, currentInput = emptyInput\<rparr>"

text \<open>\<^verbatim>\<open>setInput\<close>: the new record replaces the stored one; if the stored one carried the
  action "attack", the new one is given that action. (The source writes the action into
  the caller's object, which the player then holds; no field of the player aliases it.)\<close>

definition setInput :: "input \<Rightarrow> Player \<Rightarrow> Player" where
  "setInput inp p =
     (let prev = currentInput p;
          p1 = p\<lparr>currentInput := inp\<rparr>
      in if inputAction prev = Some ''attack''
         then p1\<lparr>currentInput := (currentInput p1)\<lparr>inputAction := Some ''attack''\<rparr>\<rparr>
         else p1)"

definition isAttacking :: "Player \<Rightarrow> bool" where
  "isAttacking p = (inputAction (currentInput p) = Some ''attack'')"

text \<open>Lines 80 to 83 of \<^verbatim>\<open>processInput\<close>: the four movement statements, in the source's
  order. \<open>TICK_RATE\<close> is imported from the server module and is a parameter here.\<close>

definition integrate :: "real \<Rightarrow> input \<Rightarrow> Player \<Rightarrow> Player" where
  "integrate TICK_RATE inp p =
     (let p1 = (if truthy (left inp)
                then p\<lparr>position := (position p)\<lparr>pos_x := pos_x (position p) - speed p / TICK_RATE\<rparr>\<rparr>
                else p);
          p2 = (if truthy (right inp)
                then p1\<lparr>position := (position p1)\<lparr>pos_x := pos_x (position p1) + speed p1 / TICK_RATE\<rparr>\<rparr>
                else p1);
          p3 = (if truthy (up inp)
                then p2\<lparr>position := (position p2)\<lparr>pos_y := pos_y (position p2) - speed p2 / TICK_RATE\<rparr>\<rparr>
                else p2);
          p4 = (if truthy (down inp)
                then p3\<lparr>position := (position p3)\<lparr>pos_y := pos_y (position p3) + speed p3 / TICK_RATE\<rparr>\<rparr>
                else p3)
      in p4)"

text \<open>Lines 94 and 95: \<^verbatim>\<open>Math.max(0, Math.min(800, x))\<close> and the same with 600 for y.\<close>

definition clampPosition :: "Player \<Rightarrow> Player" where
  "clampPosition p =
     (let p1 = p\<lparr>position := (position p)\<lparr>pos_x := max 0 (min 800 (pos_x (position p)))\<rparr>\<rparr>
      in p1\<lparr>position := (position p1)\<lparr>pos_y := max 0 (min 600 (pos_y (position p1)))\<rparr>\<rparr>)"

definition processInput :: "real \<Rightarrow> Player \<Rightarrow> Player" where
  "processInput TICK_RATE p =
     (let inp = currentInput p;
          p1 = integrate TICK_RATE inp p;
          p2 = (if truthyStr (inputDirection inp)
                then p1\<lparr>direction := the (inputDirection inp)\<rparr> else p1);
          p3 = (if truthyStr (inputAction inp)
                then p2\<lparr>action := the (inputAction inp)\<rparr> else p2);
          p4 = clampPosition p3
      in p4\<lparr>currentInput := emptyInput\<rparr>)"

text \<open>\<^verbatim>\<open>gainExp\<close> returns its boolean together with the updated player.\<close>

definition gainExp :: "int \<Rightarrow> Player \<Rightarrow> bool \<times> Player" where
  "gainExp amount p =
     (let p1 = p\<lparr>experience := experience p + amount\<rparr>
      in if experience p1 \<ge> level p1 * 100
         then (True, (p1\<lparr>experience := experience p1 - level p1 * 100\<rparr>)
                       \<lparr>level := level p1 + 1\<rparr>)
         else (False, p1))"

section \<open>Client side: \<open>frontend/src/entities/Player.ts\<close>\<close>

text \<open>
  The client's \<^verbatim>\<open>Player\<close> owns four Phaser display objects. The model keeps what the
  class writes to them: the sprite's coordinates, flip flag and the key last handed to
  \<^verbatim>\<open>sprite.play\<close> (\<open>anim\<close>), the label's coordinates, the bar's width and x, and the
  level shown by the level text. \<open>onComplete\<close> counts the listeners registered with
  \<^verbatim>\<open>sprite.once("animationcomplete", ...)\<close> that have not fired yet. Fields whose names
  the server's player already has carry the suffix \<open>_c\<close>.
\<close>

record ClientPlayer =
  playerId_c :: string
  sprite_x :: real
  sprite_y :: real
  flipX :: bool
  anim :: string
  onComplete :: nat
  label_x :: real
  label_y :: real
  expBar_width :: real
  expBar_x :: real
  levelText :: int
  exp_c :: int
  level_c :: int
  isMoving :: bool
  isAttacking_c :: bool
  currentDirection :: string
  currentAction :: string

definition updatePosition :: "vec \<Rightarrow> ClientPlayer \<Rightarrow> ClientPlayer" where
  "updatePosition pos c =
     c\<lparr>sprite_x := pos_x pos, sprite_y := pos_y pos,
       label_x := pos_x pos, label_y := pos_y pos - 50\<rparr>"

text \<open>The bar's width divides by \<open>level * 100\<close>; the model is the source's for a level
  other than 0.\<close>

definition updateExpBar :: "int \<Rightarrow> int \<Rightarrow> ClientPlayer \<Rightarrow> ClientPlayer" where
  "updateExpBar e l c =
     (let c1 = c\<lparr>exp_c := e, level_c := l\<rparr>;
          expPercentage = (real_of_int e / (real_of_int l * 100)) * 200;
          c2 = c1\<lparr>expBar_width := expPercentage\<rparr>;
          c3 = c2\<lparr>expBar_x := 400 - (200 - expBar_width c2) / 2\<rparr>
      in c3\<lparr>levelText := l\<rparr>)"

definition updateDirection :: "string \<Rightarrow> ClientPlayer \<Rightarrow> ClientPlayer" where
  "updateDirection d c =
     (if d \<noteq> [] then
        (let c1 = (if d \<noteq> currentDirection c
                   then (if d = ''left'' then c\<lparr>flipX := True\<rparr> else c\<lparr>flipX := False\<rparr>)
                   else c)
         in c1\<lparr>currentDirection := d\<rparr>)
      else c)"

definition updateAction :: "string \<Rightarrow> ClientPlayer \<Rightarrow> ClientPlayer" where
  "updateAction a c = c\<lparr>currentAction := a\<rparr>"

text \<open>\<^verbatim>\<open>playAnimation(action, direction)\<close>. The default of the second parameter,
  \<^verbatim>\<open>this.currentDirection\<close>, is supplied by the caller (\<open>playAnimationDefault\<close>).\<close>

definition playAnimation :: "string \<Rightarrow> string \<Rightarrow> ClientPlayer \<Rightarrow> ClientPlayer" where
  "playAnimation a d c =
     (if isAttacking_c c then c
      else
        (let (animationKey, c1) =
               (if a = ''idle'' then (''idle_'' @ d, c\<lparr>isMoving := False\<rparr>)
                else if a = ''walk'' then (''walk_'' @ d, c\<lparr>isMoving := True\<rparr>)
                else if a = ''attack'' then (''attack_'' @ d, c\<lparr>isAttacking_c := True\<rparr>)
                else if a = ''die'' then (''die'', c)
                else ([], c));
             c2 = (if animationKey \<noteq> [] then c1\<lparr>anim := animationKey\<rparr> else c1)
         in if a = ''attack'' then c2\<lparr>onComplete := Suc (onComplete c2)\<rparr> else c2))"

definition playAnimationDefault :: "string \<Rightarrow> ClientPlayer \<Rightarrow> ClientPlayer" where
  "playAnimationDefault a c = playAnimation a (currentDirection c) c"

text \<open>The listener that \<^verbatim>\<open>playAnimation\<close> registers for an attack (lines 258 to 264).\<close>

definition attackComplete :: "ClientPlayer \<Rightarrow> ClientPlayer" where
  "attackComplete c =
     (let c1 = c\<lparr>isAttacking_c := False\<rparr>
      in playAnimation (if isMoving c1 then ''walk'' else ''idle'') (currentDirection c1) c1)"

text \<open>The sprite's "animationcomplete" event: every listener registered with \<^verbatim>\<open>once\<close>
  is removed and run.\<close>

definition animationcomplete :: "ClientPlayer \<Rightarrow> ClientPlayer" where
  "animationcomplete c = (attackComplete ^^ onComplete c) (c\<lparr>onComplete := 0\<rparr>)"

text \<open>The constructor: the sprite at the given position playing \<^verbatim>\<open>idle_right\<close>, the label
  50 above it, the bar set by \<^verbatim>\<open>updateExpBar\<close>. The frontend's \<^verbatim>\<open>PlayerData\<close> is the
  server's without \<^verbatim>\<open>health\<close> and \<^verbatim>\<open>socketId\<close>, which the client never reads.\<close>

definition newClientPlayer :: "PlayerData \<Rightarrow> ClientPlayer" where
  "newClientPlayer data =
     updateExpBar (experience data) (level data)
       \<lparr>playerId_c = playerId data,
        sprite_x = pos_x (position data), sprite_y = pos_y (position data),
        flipX = False, anim = ''idle_right'', onComplete = 0,
        label_x = pos_x (position data), label_y = pos_y (position data) - 50,
        expBar_width = 200, expBar_x = 400, levelText = level data,
        exp_c = experience data, level_c = level data,
        isMoving = False, isAttacking_c = False,
        currentDirection = ''right'', currentAction = ''idle''\<rparr>"

text \<open>What \<^verbatim>\<open>destroy()\<close> destroys, tagged with the key the object is tracked under.\<close>

datatype gfx =
    PlayerSprite string | PlayerLabel string | PlayerExpBar string | PlayerLevelText string
  | EnemySprite string | EnemyHealthBar string

definition destroyPlayer :: "string \<Rightarrow> gfx list" where
  "destroyPlayer k = [PlayerSprite k, PlayerLabel k, PlayerExpBar k, PlayerLevelText k]"

section \<open>Binary64 arithmetic\<close>

text \<open>
  A JavaScript number is an IEEE 754 binary64 value. The finite ones are the reals
  \<open>n * 2 ^ e\<close> with an integer \<open>n\<close> of magnitude below \<open>2 ^ 53\<close> and \<open>e\<close> from
  \<open>-1074\<close> to \<open>971\<close>. An arithmetic operation returns the exact result rounded to the
  nearest such value, ties to the even significand: \<open>rnd\<close>, where \<open>expo x\<close> is the
  exponent of the unit in the last place at \<open>x\<close> (at least \<open>-1074\<close>, the subnormal
  range). A rounded result above the largest finite value is an infinity in JavaScript;
  \<open>fl\<close> returns \<open>None\<close> there and the model follows the code no further.
\<close>

definition pow2 :: "int \<Rightarrow> real" where
  "pow2 e = 2 powr real_of_int e"

definition rne :: "real \<Rightarrow> int" where
  "rne v = (let f = \<lfloor>v\<rfloor>; r = v - real_of_int f
            in if r < 1/2 then f else if 1/2 < r then f + 1
               else if even f then f else f + 1)"

definition expo :: "real \<Rightarrow> int" where
  "expo x = max (\<lfloor>log 2 \<bar>x\<bar>\<rfloor> - 52) (- 1074)"

definition rnd :: "real \<Rightarrow> real" where
  "rnd x = (if x = 0 then 0 else real_of_int (rne (x / pow2 (expo x))) * pow2 (expo x))"

definition MAX_VALUE :: real where
  "MAX_VALUE = (2 ^ 53 - 1) * 2 ^ 971"

definition fl :: "real \<Rightarrow> real option" where
  "fl x = (if \<bar>rnd x\<bar> \<le> MAX_VALUE then Some (rnd x) else None)"

definition representable :: "real \<Rightarrow> bool" where
  "representable d = (\<exists>n e. d = real_of_int n * pow2 e \<and> \<bar>n\<bar> < 2 ^ 53 \<and> - 1074 \<le> e)"

definition double :: "real \<Rightarrow> bool" where
  "double d = (representable d \<and> \<bar>d\<bar> \<le> MAX_VALUE)"

text \<open>The literal \<^verbatim>\<open>0.1\<close>: the binary64 value nearest to one tenth,
  \<^verbatim>\<open>0x3FB999999999999A\<close>.\<close>

definition point1 :: real where
  "point1 = 3602879701896397 / 2 ^ 55"

section \<open>Client side: the enemies\<close>

text \<open>\<^verbatim>\<open>Phaser.Math.Linear(p0, p1, t)\<close> of the Phaser library: \<^verbatim>\<open>(p1 - p0) * t + p0\<close>, a
  subtraction, a multiplication and an addition, each rounded.\<close>

definition Linear :: "real \<Rightarrow> real \<Rightarrow> real \<Rightarrow> real option" where
  "Linear p0 p1 t =
     (case fl (p1 - p0) of None \<Rightarrow> None
      | Some d \<Rightarrow> (case fl (d * t) of None \<Rightarrow> None
          | Some m \<Rightarrow> fl (m + p0)))"

text \<open>\<^verbatim>\<open>class Enemy\<close> (the unnamed source file), with the coordinates of its sprite and
  of its health bar.\<close>

record Enemy =
  spriteE :: vec
  healthBarE :: vec
  maxHealthE :: real
  isAliveE :: bool
  targetPositionE :: vec
  currentHealthE :: real


text \<open>An entry of \<^verbatim>\<open>MainScene.enemies\<close>, and the \<^verbatim>\<open>EnemyData\<close> of a snapshot.\<close>

record EnemyObj =
  sprite :: vec
  healthBar :: vec
  healthBarWidth :: real
  fillColor :: nat
  maxWidth :: real
  maxHealth :: real
  prevPosition :: vec
  targetPosition :: vec

record EnemyData =
  enemyPosition :: vec
  enemyHealth :: real

definition createEnemy :: "EnemyData \<Rightarrow> EnemyObj" where
  "createEnemy enemyData =
     \<lparr>sprite = \<lparr>pos_x = pos_x (enemyPosition enemyData), pos_y = pos_y (enemyPosition enemyData)\<rparr>,
      healthBar = \<lparr>pos_x = pos_x (enemyPosition enemyData),
                   pos_y = pos_y (enemyPosition enemyData) - 30\<rparr>,
      healthBarWidth = 40, fillColor = 0x00ff00, maxWidth = 40,
      maxHealth = enemyHealth enemyData,
      prevPosition = \<lparr>pos_x = pos_x (enemyPosition enemyData), pos_y = pos_y (enemyPosition enemyData)\<rparr>,
      targetPosition = \<lparr>pos_x = pos_x (enemyPosition enemyData), pos_y = pos_y (enemyPosition enemyData)\<rparr>\<rparr>"

text \<open>Lines 273 to 287: a known enemy takes the snapshot's position as its target and its
  health bar is resized and recoloured. The percentage divides by \<open>maxHealth\<close>; the model
  is the source's for a \<open>maxHealth\<close> other than 0.\<close>

definition updateEnemy :: "EnemyData \<Rightarrow> EnemyObj \<Rightarrow> EnemyObj" where
  "updateEnemy serverEnemy enemyObj =
     (let e1 = enemyObj\<lparr>targetPosition := (targetPosition enemyObj)\<lparr>pos_x := pos_x (enemyPosition serverEnemy)\<rparr>\<rparr>;
          e2 = e1\<lparr>targetPosition := (targetPosition e1)\<lparr>pos_y := pos_y (enemyPosition serverEnemy)\<rparr>\<rparr>;
          healthPercentage = enemyHealth serverEnemy / maxHealth e2;
          e3 = e2\<lparr>healthBarWidth := healthPercentage * maxWidth e2\<rparr>
      in if healthPercentage > 0.5 then e3\<lparr>fillColor := 0x00ff00\<rparr>
         else if healthPercentage > 0.2 then e3\<lparr>fillColor := 0xffff00\<rparr>
         else e3\<lparr>fillColor := 0xff0000\<rparr>)"

text \<open>The body of the loop of \<^verbatim>\<open>interpolateEnemyPositions\<close>.\<close>

definition interpolateEnemy :: "EnemyObj \<Rightarrow> EnemyObj option" where
  "interpolateEnemy enemyObj =
     (let t = point1
      in case Linear (pos_x (sprite enemyObj)) (pos_x (targetPosition enemyObj)) t of None \<Rightarrow> None
         | Some x' \<Rightarrow>
             (let e1 = enemyObj\<lparr>sprite := (sprite enemyObj)\<lparr>pos_x := x'\<rparr>\<rparr>
              in case Linear (pos_y (sprite e1)) (pos_y (targetPosition e1)) t of None \<Rightarrow> None
                 | Some y' \<Rightarrow>
                     (let e2 = e1\<lparr>sprite := (sprite e1)\<lparr>pos_y := y'\<rparr>\<rparr>;
                          e3 = e2\<lparr>healthBar := (healthBar e2)\<lparr>pos_x := pos_x (sprite e2)\<rparr>\<rparr>
                      in Some (e3\<lparr>healthBar := (healthBar e3)\<lparr>pos_y := pos_y (sprite e3) - 30\<rparr>\<rparr>))))"

section \<open>Client side: \<open>frontend/src/scenes/MainScene.ts\<close>\<close>

text \<open>
  The two tables of the scene and the two tables of a snapshot are JavaScript objects used
  as dictionaries: association lists of their own properties, where assigning to a key
  replaces its value in place or appends the key (\<open>AList.update\<close>) and \<^verbatim>\<open>delete\<close>
  removes it (\<open>AList.delete\<close>). A \<^verbatim>\<open>for ... in\<close> loop visits the own keys; the order in
  which it does (JavaScript puts integer-like keys first) matters to no statement below
  except to the order of the log. Reading \<^verbatim>\<open>obj[key]\<close> finds an own property first and
  then the properties every object inherits from \<^verbatim>\<open>Object.prototype\<close>, which are functions
  (an object for \<^verbatim>\<open>__proto__\<close>) and so pass a test \<^verbatim>\<open>if (obj[key])\<close>.
\<close>

datatype 'a property = Own 'a | Inherited | Missing

definition objectPrototype :: "string list" where
  "objectPrototype = [''constructor'', ''__defineGetter__'', ''__defineSetter__'',
     ''hasOwnProperty'', ''__lookupGetter__'', ''__lookupSetter__'', ''isPrototypeOf'',
     ''propertyIsEnumerable'', ''toString'', ''valueOf'', ''__proto__'', ''toLocaleString'']"

definition getProp :: "(string \<times> 'a) list \<Rightarrow> string \<Rightarrow> 'a property" where
  "getProp obj key =
     (case map_of obj key of Some v \<Rightarrow> Own v
      | None \<Rightarrow> if key \<in> set objectPrototype then Inherited else Missing)"

text \<open>
  \<open>destroyed\<close> is the log of the display objects destroyed so far. The field
  \<^verbatim>\<open>this.player\<close> is a second reference to the entry \<^verbatim>\<open>players[playerId]\<close>, read by
  \<^verbatim>\<open>update\<close> only, and has no field here. Calling a method of an inherited property, or
  writing to a field of its \<^verbatim>\<open>targetPosition\<close>, throws a \<^verbatim>\<open>TypeError\<close>: the result is
  then \<open>Inl\<close> with the scene as it was left.
\<close>

record MainScene =
  playerId_m :: string
  players :: "(string \<times> ClientPlayer) list"
  enemies :: "(string \<times> EnemyObj) list"
  destroyed :: "gfx list"

record GameState =
  statePlayers :: "(string \<times> PlayerData) list"
  stateEnemies :: "(string \<times> EnemyData) list"

datatype error = TypeError

type_synonym result = "(error \<times> MainScene) + MainScene"

text \<open>The scene as its constructor leaves it.\<close>

definition newScene :: "string \<Rightarrow> MainScene" where
  "newScene pid = \<lparr>playerId_m = pid, players = [], enemies = [], destroyed = []\<rparr>"

definition createPlayer :: "PlayerData \<Rightarrow> MainScene \<Rightarrow> MainScene" where
  "createPlayer playerData s =
     s\<lparr>players := AList.update (playerId_m s) (newClientPlayer playerData) (players s)\<rparr>"

definition createOtherPlayer :: "PlayerData \<Rightarrow> MainScene \<Rightarrow> MainScene" where
  "createOtherPlayer playerData s =
     (if getProp (players s) (playerId playerData) \<noteq> Missing then s
      else s\<lparr>players := AList.update (playerId playerData) (newClientPlayer playerData) (players s)\<rparr>)"

text \<open>Lines 245 to 260, the body of the first loop, for one key of the snapshot and its
  value. For an inherited property the call of \<^verbatim>\<open>updatePosition\<close> throws.\<close>

definition syncPlayer :: "string \<Rightarrow> PlayerData \<Rightarrow> MainScene \<Rightarrow> result" where
  "syncPlayer key serverPlayer s =
     (case getProp (players s) key of
        Own c \<Rightarrow>
          (let c1 = updatePosition (position serverPlayer) c;
               c2 = updateDirection (direction serverPlayer) c1;
               c3 = updateAction (action serverPlayer) c2;
               c4 = playAnimationDefault (action serverPlayer) c3;
               c5 = (if key = playerId_m s
                     then updateExpBar (experience serverPlayer) (level serverPlayer) c4
                     else c4)
           in Inr (s\<lparr>players := AList.update key c5 (players s)\<rparr>))
      | Inherited \<Rightarrow> Inl (TypeError, s)
      | Missing \<Rightarrow>
          Inr (if key = playerId_m s then createPlayer serverPlayer s
               else createOtherPlayer serverPlayer s))"

fun syncPlayers :: "(string \<times> PlayerData) list \<Rightarrow> MainScene \<Rightarrow> result" where
  "syncPlayers [] s = Inr s"
| "syncPlayers ((key, serverPlayer) # rest) s =
     (case syncPlayer key serverPlayer s of
        Inl err \<Rightarrow> Inl err
      | Inr s' \<Rightarrow> syncPlayers rest s')"

text \<open>Lines 263 to 268: the loop over the keys of \<^verbatim>\<open>this.players\<close>.\<close>

fun removePlayers :: "string list \<Rightarrow> (string \<times> PlayerData) list \<Rightarrow> MainScene \<Rightarrow> MainScene" where
  "removePlayers [] sp s = s"
| "removePlayers (key # keys) sp s =
     removePlayers keys sp
       (if getProp sp key = Missing
        then s\<lparr>destroyed := destroyed s @ destroyPlayer key,
               players := AList.delete key (players s)\<rparr>
        else s)"

text \<open>Lines 270 to 291. For an inherited property the write to
  \<^verbatim>\<open>enemyObj.targetPosition.x\<close> throws.\<close>

definition syncEnemy :: "string \<Rightarrow> EnemyData \<Rightarrow> MainScene \<Rightarrow> result" where
  "syncEnemy key serverEnemy s =
     (case getProp (enemies s) key of
        Own enemyObj \<Rightarrow>
          Inr (s\<lparr>enemies := AList.update key (updateEnemy serverEnemy enemyObj) (enemies s)\<rparr>)
      | Inherited \<Rightarrow> Inl (TypeError, s)
      | Missing \<Rightarrow> Inr (s\<lparr>enemies := AList.update key (createEnemy serverEnemy) (enemies s)\<rparr>))"

fun syncEnemies :: "(string \<times> EnemyData) list \<Rightarrow> MainScene \<Rightarrow> result" where
  "syncEnemies [] s = Inr s"
| "syncEnemies ((key, serverEnemy) # rest) s =
     (case syncEnemy key serverEnemy s of
        Inl err \<Rightarrow> Inl err
      | Inr s' \<Rightarrow> syncEnemies rest s')"

text \<open>Lines 293 to 299.\<close>

fun removeEnemies :: "string list \<Rightarrow> (string \<times> EnemyData) list \<Rightarrow> MainScene \<Rightarrow> MainScene" where
  "removeEnemies [] se s = s"
| "removeEnemies (key # keys) se s =
     removeEnemies keys se
       (if getProp se key = Missing
        then s\<lparr>destroyed := destroyed s @ [EnemySprite key, EnemyHealthBar key],
               enemies := AList.delete key (enemies s)\<rparr>
        else s)"

definition updateGameState :: "GameState \<Rightarrow> MainScene \<Rightarrow> result" where
  "updateGameState state s =
     (case syncPlayers (statePlayers state) s of
        Inl err \<Rightarrow> Inl err
      | Inr s1 \<Rightarrow>
          (let s2 = removePlayers (map fst (players s1)) (statePlayers state) s1
           in case syncEnemies (stateEnemies state) s2 of
                Inl err \<Rightarrow> Inl err
              | Inr s3 \<Rightarrow> Inr (removeEnemies (map fst (enemies s3)) (stateEnemies state) s3)))"

text \<open>The handlers of the events "playerJoined" and "playerLeft" (lines 146 to 157), the
  only other code that writes to the table of players.\<close>

definition playerJoined :: "PlayerData \<Rightarrow> MainScene \<Rightarrow> MainScene" where
  "playerJoined playerData s =
     (if getProp (players s) (playerId playerData) = Missing
      then createOtherPlayer playerData s else s)"

definition playerLeft :: "string \<Rightarrow> MainScene \<Rightarrow> result" where
  "playerLeft leftPlayerId s =
     (case getProp (players s) leftPlayerId of
        Own c \<Rightarrow> Inr (s\<lparr>destroyed := destroyed s @ destroyPlayer leftPlayerId,
                       players := AList.delete leftPlayerId (players s)\<rparr>)
      | Inherited \<Rightarrow> Inl (TypeError, s)
      | Missing \<Rightarrow> Inr s)"

text \<open>\<^verbatim>\<open>interpolateEnemyPositions\<close>: the loop over the table of enemies.\<close>

fun interpolateAll :: "(string \<times> EnemyObj) list \<Rightarrow> (string \<times> EnemyObj) list option" where
  "interpolateAll [] = Some []"
| "interpolateAll ((key, enemyObj) # rest) =
     (case interpolateEnemy enemyObj of None \<Rightarrow> None
      | Some e' \<Rightarrow> (case interpolateAll rest of None \<Rightarrow> None
          | Some rest' \<Rightarrow> Some ((key, e') # rest')))"

definition interpolateEnemyPositions :: "MainScene \<Rightarrow> MainScene option" where
  "interpolateEnemyPositions s =
     (case interpolateAll (enemies s) of None \<Rightarrow> None
      | Some es \<Rightarrow> Some (s\<lparr>enemies := es\<rparr>))"

section \<open>Definitions used to state the properties\<close>

text \<open>The experience rule as the specification words it, for comparison with \<open>gainExp\<close>:
  add the amount; while experience is at least level times 100, subtract level times 100 and
  increment the level; report whether the level was incremented at least once.\<close>

function gainLevels :: "int \<Rightarrow> int \<Rightarrow> bool \<Rightarrow> int \<times> int \<times> bool" where
  "gainLevels e l leveled =
     (if e \<ge> l * 100 then gainLevels (e - l * 100) (l + 1) True else (e, l, leveled))"
  by pat_completeness auto
termination
  by (relation "measures [\<lambda>(e, l, u). nat (1 - l), \<lambda>(e, l, u). nat e]") auto

definition gainExp_spec :: "int \<Rightarrow> Player \<Rightarrow> bool \<times> Player" where
  "gainExp_spec amount p =
     (case gainLevels (experience p + amount) (level p) False of
        (e, l, leveled) \<Rightarrow> (leveled, p\<lparr>experience := e, level := l\<rparr>))"

text \<open>\<open>n\<close> render frames with no snapshot in between.\<close>

fun renderFrames :: "nat \<Rightarrow> MainScene \<Rightarrow> MainScene option" where
  "renderFrames 0 s = Some s"
| "renderFrames (Suc n) s =
     (case renderFrames n s of None \<Rightarrow> None | Some s' \<Rightarrow> interpolateEnemyPositions s')"








text \<open>The own keys of a table, and the scenes none of whose tracked keys is the name of
  a property of \<^verbatim>\<open>Object.prototype\<close>.\<close>

definition keysOf :: "(string \<times> 'a) list \<Rightarrow> string set" where
  "keysOf obj = fst ` set obj"

definition noProtoKeys :: "MainScene \<Rightarrow> bool" where
  "noProtoKeys s =
     (keysOf (players s) \<inter> set objectPrototype = {}
      \<and> keysOf (enemies s) \<inter> set objectPrototype = {})"

text \<open>The bookkeeping of the attack listener: exactly one listener is pending while the
  attack flag is set, and none otherwise.\<close>

definition listenerPending :: "ClientPlayer \<Rightarrow> bool" where
  "listenerPending c = (onComplete c = (if isAttacking_c c then Suc 0 else 0))"

text \<open>Concrete inputs for the instances below: a player record as the server stores and
  sends it, a scene tracking two players and two enemies, and a snapshot that holds only
  the first of each, moved.\<close>

definition examplePlayerData :: PlayerData where
  "examplePlayerData = \<lparr>playerId = ''p1'', position = \<lparr>pos_x = 400, pos_y = 300\<rparr>,
     level = 1, experience = 0, health = 100, socketId = ''s1'',
     direction = ''right'', action = ''idle''\<rparr>"

definition exampleScene :: MainScene where
  "exampleScene = \<lparr>playerId_m = ''p1'',
     players = [(''p1'', newClientPlayer examplePlayerData),
                (''p2'', newClientPlayer (examplePlayerData\<lparr>playerId := ''p2''\<rparr>))],
     enemies = [(''e1'', createEnemy \<lparr>enemyPosition = \<lparr>pos_x = 10, pos_y = 20\<rparr>, enemyHealth = 50\<rparr>),
                (''e2'', createEnemy \<lparr>enemyPosition = \<lparr>pos_x = 70, pos_y = 80\<rparr>, enemyHealth = 50\<rparr>)],
     destroyed = []\<rparr>"

definition exampleState :: GameState where
  "exampleState = \<lparr>
     statePlayers = [(''p1'', examplePlayerData\<lparr>position := \<lparr>pos_x = 410, pos_y = 300\<rparr>\<rparr>)],
     stateEnemies = [(''e1'', \<lparr>enemyPosition = \<lparr>pos_x = 30, pos_y = 20\<rparr>, enemyHealth = 40\<rparr>)]\<rparr>"

text \<open>The scene that a call leaves, whether it completed or threw.\<close>

definition sceneAfter :: "result \<Rightarrow> MainScene" where
  "sceneAfter r = (case r of Inl (err, s) \<Rightarrow> s | Inr s \<Rightarrow> s)"


text \<open>An enemy displayed at \<open>30 - 2 ^ -46\<close> (printed 29.999999999999986) on its way to
  30, and a scene that tracks it alone.\<close>

definition stalledEnemy :: EnemyObj where
  "stalledEnemy =
     (createEnemy \<lparr>enemyPosition = \<lparr>pos_x = 30 - 1 / 2 ^ 46, pos_y = 20\<rparr>, enemyHealth = 50\<rparr>)
       \<lparr>targetPosition := \<lparr>pos_x = 30, pos_y = 20\<rparr>\<rparr>"

definition stalledScene :: MainScene where
  "stalledScene = (newScene ''p1'')\<lparr>enemies := [(''e1'', stalledEnemy)]\<rparr>"


section \<open>Experience and levels\<close>

declare gainLevels.simps [simp del]

lemma gainExp_result:
  "gainExp amount p =
     (if experience p + amount \<ge> level p * 100
      then (True, p\<lparr>experience := experience p + amount - level p * 100, level := level p + 1\<rparr>)
      else (False, p\<lparr>experience := experience p + amount\<rparr>))"
  by (simp add: gainExp_def Let_def)

lemma gainLevels_stop: "e < l * 100 \<Longrightarrow> gainLevels e l u = (e, l, u)"
  by (subst gainLevels.simps) simp

lemma gainLevels_once:
  "l * 100 \<le> e \<Longrightarrow> e - l * 100 < (l + 1) * 100 \<Longrightarrow>
     gainLevels e l u = (e - l * 100, l + 1, True)"
  by (subst gainLevels.simps) (simp add: gainLevels_stop)

text \<open>
  Claim C1, as amended. \<open>gainExp\<close> adds the amount to the experience. When the sum stays
  below the sum of the thresholds of the current and of the next level, so that at most one
  threshold is crossed, it does what the loop of the specification does: below
  \<open>level * 100\<close> nothing else changes and the result is false; otherwise \<open>level * 100\<close>
  is subtracted, the level grows by exactly one and the result is true.
\<close>

theorem gainExp_single_threshold:
  assumes "experience p + amount < level p * 100 + (level p + 1) * 100"
  shows "gainExp amount p = gainExp_spec amount p
     \<and> gainExp amount p =
        (if experience p + amount \<ge> level p * 100
         then (True, p\<lparr>experience := experience p + amount - level p * 100,
                       level := level p + 1\<rparr>)
         else (False, p\<lparr>experience := experience p + amount\<rparr>))"
proof (cases "level p * 100 \<le> experience p + amount")
  case True
  then have "gainLevels (experience p + amount) (level p) False =
      (experience p + amount - level p * 100, level p + 1, True)"
    using assms by (intro gainLevels_once) simp_all
  then show ?thesis
    using True by (simp add: gainExp_result gainExp_spec_def)
next
  case False
  then have "gainLevels (experience p + amount) (level p) False =
      (experience p + amount, level p, False)"
    by (intro gainLevels_stop) simp
  then show ?thesis
    using False by (simp add: gainExp_result gainExp_spec_def)
qed

text \<open>The first example of the claim: level 1, experience 90, a gain of 30.\<close>

theorem gainExp_single_threshold_witness:
  "experience (newPlayer (examplePlayerData\<lparr>experience := 90\<rparr>)) + 30
     < level (newPlayer (examplePlayerData\<lparr>experience := 90\<rparr>)) * 100
       + (level (newPlayer (examplePlayerData\<lparr>experience := 90\<rparr>)) + 1) * 100
   \<and> gainExp 30 (newPlayer (examplePlayerData\<lparr>experience := 90\<rparr>))
       = (True, newPlayer (examplePlayerData\<lparr>experience := 20, level := 2\<rparr>))
   \<and> gainExp_spec 30 (newPlayer (examplePlayerData\<lparr>experience := 90\<rparr>))
       = (True, newPlayer (examplePlayerData\<lparr>experience := 20, level := 2\<rparr>))"
  using gainExp_single_threshold[of "newPlayer (examplePlayerData\<lparr>experience := 90\<rparr>)" 30]
  by (auto simp add: newPlayer_def examplePlayerData_def)

text \<open>The loop of the specification, run on the second example of the claim: the threshold
  of level 2 is 200, so a gain of 250 from level 1 is one crossing.\<close>

lemma gainExp_spec_250:
  "gainExp_spec 250 (newPlayer examplePlayerData)
     = (True, newPlayer (examplePlayerData\<lparr>experience := 150, level := 2\<rparr>))"
  by (simp add: gainExp_spec_def newPlayer_def examplePlayerData_def gainLevels_once)

text \<open>
  Where the claim fails. From level 1 and experience 0, a gain of 250 ends at level 2 with
  experience 150, not at level 3 with experience 50. A gain of 300 crosses two thresholds:
  the single test of \<open>gainExp\<close> stops at level 2 with experience 200, which is the
  threshold of level 2, where the loop of the specification reaches level 3 with
  experience 0.
\<close>

theorem gainExp_thresholds_counterexample:
  "gainExp 250 (newPlayer examplePlayerData)
     = (True, newPlayer (examplePlayerData\<lparr>experience := 150, level := 2\<rparr>))
   \<and> \<not> (experience (snd (gainExp 250 (newPlayer examplePlayerData))) = 50
        \<and> level (snd (gainExp 250 (newPlayer examplePlayerData))) = 3)
   \<and> gainExp 300 (newPlayer examplePlayerData)
     = (True, newPlayer (examplePlayerData\<lparr>experience := 200, level := 2\<rparr>))
   \<and> gainExp_spec 300 (newPlayer examplePlayerData)
     = (True, newPlayer (examplePlayerData\<lparr>experience := 0, level := 3\<rparr>))
   \<and> gainExp 300 (newPlayer examplePlayerData) \<noteq> gainExp_spec 300 (newPlayer examplePlayerData)"
proof -
  have "gainLevels 300 1 False = gainLevels 200 2 True"
    by (subst gainLevels.simps) simp
  also have "\<dots> = (0, 3, True)"
    by (simp add: gainLevels_once)
  finally show ?thesis
    by (simp add: gainExp_result gainExp_spec_def newPlayer_def examplePlayerData_def)
qed

section \<open>The input buffer and the tick\<close>

lemma integrate_frame:
  "playerId (integrate T inp p) = playerId p"
  "level (integrate T inp p) = level p"
  "experience (integrate T inp p) = experience p"
  "health (integrate T inp p) = health p"
  "socketId (integrate T inp p) = socketId p"
  "direction (integrate T inp p) = direction p"
  "action (integrate T inp p) = action p"
  "isAlive (integrate T inp p) = isAlive p"
  "speed (integrate T inp p) = speed p"
  "currentInput (integrate T inp p) = currentInput p"
  by (simp_all add: integrate_def Let_def)


lemma integrate_empty: "integrate T emptyInput q = q"
  by (simp add: integrate_def emptyInput_def truthy_def)

lemma clampPosition_position:
  "pos_x (position (clampPosition p)) = max 0 (min 800 (pos_x (position p)))"
  "pos_y (position (clampPosition p)) = max 0 (min 600 (pos_y (position p)))"
  by (simp_all add: clampPosition_def Let_def)

lemma clampPosition_inside:
  assumes "0 \<le> pos_x (position q)" "pos_x (position q) \<le> 800"
      and "0 \<le> pos_y (position q)" "pos_y (position q) \<le> 600"
  shows "clampPosition q = q"
  using assms by (simp add: clampPosition_def max_absorb2 min_absorb2)

lemma processInput_position:
  "pos_x (position (processInput T p)) =
     max 0 (min 800 (pos_x (position (integrate T (currentInput p) p))))"
  "pos_y (position (processInput T p)) =
     max 0 (min 600 (pos_y (position (integrate T (currentInput p) p))))"
  by (simp_all add: processInput_def Let_def clampPosition_position)

lemma processInput_currentInput: "currentInput (processInput T p) = emptyInput"
  by (simp add: processInput_def Let_def)

lemma processInput_empty:
  assumes "currentInput q = emptyInput"
      and "0 \<le> pos_x (position q)" "pos_x (position q) \<le> 800"
      and "0 \<le> pos_y (position q)" "pos_y (position q) \<le> 600"
  shows "processInput T q = q"
proof -
  have "truthyStr (inputDirection emptyInput) = False" "truthyStr (inputAction emptyInput) = False"
    by (simp_all add: truthyStr_def emptyInput_def)
  then have "processInput T q = (clampPosition q)\<lparr>currentInput := emptyInput\<rparr>"
    using assms(1) by (simp add: processInput_def integrate_empty)
  also have "\<dots> = q\<lparr>currentInput := emptyInput\<rparr>"
    using assms(2-5) by (simp only: clampPosition_inside)
  also have "\<dots> = q"
    using assms(1) by simp
  finally show ?thesis .
qed

lemma processInput_idem: "processInput T (processInput T p) = processInput T p"
  by (rule processInput_empty) (simp_all add: processInput_currentInput processInput_position)

text \<open>A pending attack also survives any number of further inputs.\<close>

lemma setInput_attack_kept:
  "inputAction (currentInput p) = Some ''attack'' \<Longrightarrow>
     inputAction (currentInput (setInput inp p)) = Some ''attack''"
  by (simp add: setInput_def Let_def)

lemma setInputs_attack_kept:
  "inputAction (currentInput p) = Some ''attack'' \<Longrightarrow>
     inputAction (currentInput (fold setInput inps p)) = Some ''attack''"
  by (induction inps arbitrary: p) (simp_all add: setInput_attack_kept)

text \<open>
  Claim C2. When the pending input record carries the action "attack", \<open>setInput\<close> with any
  record (one whose action is not "attack" in particular) leaves the stored action equal to
  "attack", and the tick that consumes the record sets the player's action to "attack".
\<close>

theorem setInput_attack_latch:
  assumes "inputAction (currentInput p) = Some ''attack''"
  shows "inputAction (currentInput (setInput inp p)) = Some ''attack''
     \<and> isAttacking (setInput inp p)
     \<and> action (processInput TICK_RATE (setInput inp p)) = ''attack''"
  using assms
  by (simp add: setInput_def Let_def isAttacking_def processInput_def truthyStr_def
        clampPosition_def integrate_frame)

text \<open>The example of the specification: \<^verbatim>\<open>setInput({action: "attack"})\<close>, then
  \<^verbatim>\<open>setInput({left: true})\<close>.\<close>

theorem setInput_attack_latch_witness:
  "inputAction (currentInput (setInput (emptyInput\<lparr>inputAction := Some ''attack''\<rparr>)
       (newPlayer examplePlayerData))) = Some ''attack''
   \<and> inputAction (currentInput (setInput (emptyInput\<lparr>left := Some True\<rparr>)
        (setInput (emptyInput\<lparr>inputAction := Some ''attack''\<rparr>)
          (newPlayer examplePlayerData)))) = Some ''attack''
   \<and> action (processInput 60 (setInput (emptyInput\<lparr>left := Some True\<rparr>)
        (setInput (emptyInput\<lparr>inputAction := Some ''attack''\<rparr>)
          (newPlayer examplePlayerData)))) = ''attack''"
proof -
  have h: "inputAction (currentInput (setInput (emptyInput\<lparr>inputAction := Some ''attack''\<rparr>)
       (newPlayer examplePlayerData))) = Some ''attack''"
    by (simp add: setInput_def newPlayer_def emptyInput_def)
  show ?thesis
    using h setInput_attack_latch[OF h, of "emptyInput\<lparr>left := Some True\<rparr>" 60] by simp
qed

text \<open>
  Claim C3. For a positive tick rate, after \<open>processInput\<close> the position lies in the world
  rectangle, for any starting position and any directional flags: x in [0, 800], y in
  [0, 600]. Each coordinate is the clamped (max 0, min bound) value of the integrated one.
\<close>

theorem processInput_clamped:
  assumes "0 < TICK_RATE"
  shows "0 \<le> pos_x (position (processInput TICK_RATE p))
     \<and> pos_x (position (processInput TICK_RATE p)) \<le> 800
     \<and> 0 \<le> pos_y (position (processInput TICK_RATE p))
     \<and> pos_y (position (processInput TICK_RATE p)) \<le> 600
     \<and> pos_x (position (processInput TICK_RATE p)) =
         max 0 (min 800 (pos_x (position (integrate TICK_RATE (currentInput p) p))))
     \<and> pos_y (position (processInput TICK_RATE p)) =
         max 0 (min 600 (pos_y (position (integrate TICK_RATE (currentInput p) p))))"
  by (simp add: processInput_position)

theorem processInput_clamped_witness:
  "(0::real) < 60
   \<and> 0 \<le> pos_x (position (processInput 60 (setInput (emptyInput\<lparr>left := Some True\<rparr>)
          (newPlayer (examplePlayerData\<lparr>position := \<lparr>pos_x = 1, pos_y = 900\<rparr>\<rparr>)))))
   \<and> pos_y (position (processInput 60 (setInput (emptyInput\<lparr>left := Some True\<rparr>)
          (newPlayer (examplePlayerData\<lparr>position := \<lparr>pos_x = 1, pos_y = 900\<rparr>\<rparr>))))) \<le> 600"
  using processInput_clamped[of 60 "setInput (emptyInput\<lparr>left := Some True\<rparr>)
          (newPlayer (examplePlayerData\<lparr>position := \<lparr>pos_x = 1, pos_y = 900\<rparr>\<rparr>))"]
  by simp

text \<open>
  Claim C4. \<open>processInput\<close> consumes the buffered input: afterwards the stored record is
  the empty record and \<open>isAttacking\<close> is false. A second tick with no input in between
  changes nothing, so a latched attack is applied by one tick only.
\<close>

theorem processInput_resets_input:
  "currentInput (processInput TICK_RATE p) = emptyInput
   \<and> \<not> isAttacking (processInput TICK_RATE p)
   \<and> processInput TICK_RATE (processInput TICK_RATE p) = processInput TICK_RATE p"
  by (simp add: processInput_currentInput isAttacking_def processInput_idem)
     (simp add: emptyInput_def)



text \<open>
  Claim C10. \<open>processInput\<close> leaves the fields \<open>playerId\<close>, \<open>level\<close>, \<open>experience\<close>,
  \<open>health\<close>, \<open>socketId\<close>, \<open>isAlive\<close> and \<open>speed\<close> as they were; it writes only
  \<open>position\<close>, \<open>direction\<close>, \<open>action\<close> and \<open>currentInput\<close>.
\<close>

theorem processInput_unchanged_fields:
  "playerId (processInput TICK_RATE p) = playerId p
   \<and> level (processInput TICK_RATE p) = level p
   \<and> experience (processInput TICK_RATE p) = experience p
   \<and> health (processInput TICK_RATE p) = health p
   \<and> socketId (processInput TICK_RATE p) = socketId p
   \<and> isAlive (processInput TICK_RATE p) = isAlive p
   \<and> speed (processInput TICK_RATE p) = speed p"
  by (simp add: processInput_def Let_def clampPosition_def integrate_frame)

section \<open>Rounding in binary64\<close>

lemma pow2_pos [simp]: "0 < pow2 e"
  by (simp add: pow2_def)

lemma pow2_nonneg [simp]: "0 \<le> pow2 e"
  by (simp add: pow2_def)

lemma abs_pow2 [simp]: "\<bar>pow2 e\<bar> = pow2 e"
  by (simp add: pow2_def)

lemma pow2_neq_0 [simp]: "pow2 e \<noteq> 0"
  by (simp add: pow2_def)

lemma pow2_add: "pow2 (a + b) = pow2 a * pow2 b"
  by (simp add: pow2_def powr_add)

lemma pow2_0 [simp]: "pow2 0 = 1"
  by (simp add: pow2_def)

lemma pow2_nat: "pow2 (int n) = 2 ^ n"
  by (simp add: pow2_def powr_realpow)

lemma pow2_le_iff [simp]: "pow2 a \<le> pow2 b \<longleftrightarrow> a \<le> b"
  by (simp add: pow2_def)

lemma pow2_less_iff [simp]: "pow2 a < pow2 b \<longleftrightarrow> a < b"
  by (simp add: pow2_def)

lemma pow2_diff: "pow2 (a - b) = pow2 a / pow2 b"
  by (simp add: pow2_def powr_diff)

lemma floor_log2: "0 < x \<Longrightarrow> \<lfloor>log 2 x\<rfloor> = k \<longleftrightarrow> pow2 k \<le> x \<and> x < pow2 (k + 1)"
  by (simp add: pow2_def floor_log_eq_powr_iff)

lemma floor_log2_bounds:
  assumes "0 < x"
  shows "pow2 \<lfloor>log 2 x\<rfloor> \<le> x" "x < pow2 (\<lfloor>log 2 x\<rfloor> + 1)"
  using floor_log2[OF assms, of "\<lfloor>log 2 x\<rfloor>"] by simp_all

lemma rne_of_int [simp]: "rne (real_of_int k) = k"
  by (simp add: rne_def)




lemma expo_minus [simp]: "expo (- x) = expo x"
  by (simp add: expo_def)


lemma rnd_0 [simp]: "rnd 0 = 0"
  by (simp add: rnd_def)









lemma rnd_representable_eq:
  assumes "representable d"
  shows "rnd d = d"
proof (cases "d = 0")
  case True
  then show ?thesis by simp
next
  case False
  obtain n e where d: "d = real_of_int n * pow2 e" and n: "\<bar>n\<bar> < 2 ^ 53" and e: "- 1074 \<le> e"
    using assms by (auto simp: representable_def)
  have pos: "0 < \<bar>d\<bar>" using False by simp
  have le: "expo d \<le> e"
  proof (rule ccontr)
    assume "\<not> expo d \<le> e"
    then have gt: "e < expo d" by simp
    then have "expo d = \<lfloor>log 2 \<bar>d\<bar>\<rfloor> - 52"
      using e by (simp add: expo_def max_def split: if_splits)
    then have "e + 53 \<le> \<lfloor>log 2 \<bar>d\<bar>\<rfloor>" using gt by simp
    then have "pow2 (e + 53) \<le> pow2 \<lfloor>log 2 \<bar>d\<bar>\<rfloor>" by simp
    also have "\<dots> \<le> \<bar>d\<bar>" using pos by (rule floor_log2_bounds)
    also have "\<dots> = \<bar>real_of_int n\<bar> * pow2 e" by (simp add: d abs_mult)
    finally have "pow2 e * 2 ^ 53 \<le> \<bar>real_of_int n\<bar> * pow2 e"
      using pow2_add[of e 53] pow2_nat[of 53] by simp
    then have "(2::real) ^ 53 \<le> \<bar>real_of_int n\<bar>" by (simp add: mult.commute)
    moreover have "\<bar>real_of_int n\<bar> < 2 ^ 53"
      using n by (metis of_int_abs of_int_less_iff of_int_numeral of_int_power)
    ultimately show False by simp
  qed
  define E where "E = expo d"
  define j where "j = nat (e - E)"
  have "pow2 e = pow2 (int j) * pow2 E"
    using le pow2_add[of "int j" E] by (simp add: j_def E_def)
  then have pe: "pow2 e = 2 ^ j * pow2 E" by (simp add: pow2_nat)
  have "d / pow2 E = real_of_int n * (2 ^ j * pow2 E) / pow2 E"
    by (simp only: d pe)
  also have "\<dots> = real_of_int (n * 2 ^ j)" by simp
  finally have "rne (d / pow2 E) = n * 2 ^ j" by (simp only: rne_of_int)
  then have "rnd d = real_of_int (n * 2 ^ j) * pow2 E"
    using False by (simp add: rnd_def E_def)
  also have "\<dots> = real_of_int n * (2 ^ j * pow2 E)" by simp
  also have "\<dots> = d" by (simp only: d pe)
  finally show ?thesis .
qed

lemma representable_pow2: "- 1074 \<le> e \<Longrightarrow> representable (pow2 e)"
  unfolding representable_def by (rule exI[of _ 1], rule exI[of _ e]) simp


lemma rnd_pow2: "- 1074 \<le> e \<Longrightarrow> rnd (pow2 e) = pow2 e"
  by (simp add: rnd_representable_eq representable_pow2)






lemma fl_Some: "fl v = Some r \<longleftrightarrow> r = rnd v \<and> \<bar>rnd v\<bar> \<le> MAX_VALUE"
  by (auto simp: fl_def)








subsection \<open>Results of single operations\<close>

lemma pow2_numeral: "pow2 (numeral n) = 2 ^ numeral n"
  using pow2_nat[of "numeral n"] by simp

lemma pow2_neg_numeral: "pow2 (- numeral n) = 1 / 2 ^ numeral n"
proof -
  have "pow2 (- numeral n) * pow2 (numeral n) = 1"
    using pow2_add[of "- numeral n" "numeral n"] by simp
  then show ?thesis
    by (simp add: pow2_numeral field_simps)
qed

lemma pow2_1 [simp]: "pow2 1 = 2"
  using pow2_nat[of 1] by simp

lemma rne_down:
  assumes "real_of_int n \<le> w" "w < real_of_int n + 1/2"
  shows "rne w = n"
proof -
  have f: "\<lfloor>w\<rfloor> = n" using assms by (intro floor_unique) linarith+
  have r: "w - real_of_int n < 1/2" using assms(2) by linarith
  show ?thesis unfolding rne_def Let_def f using r by simp
qed

lemma rnd_eq_down:
  assumes "pow2 k \<le> v" "v < pow2 (k + 1)" "- 1022 \<le> k"
      and "real_of_int n \<le> v / pow2 (k - 52)" "v / pow2 (k - 52) < real_of_int n + 1/2"
  shows "rnd v = real_of_int n * pow2 (k - 52)"
proof -
  have pos: "0 < v" using assms(1) pow2_pos[of k] by linarith
  have "\<lfloor>log 2 v\<rfloor> = k" using assms(1,2) by (simp add: floor_log2[OF pos])
  then have e: "expo v = k - 52" using pos assms(3) by (simp add: expo_def)
  have "rne (v / pow2 (k - 52)) = n"
    using assms(4,5) by (rule rne_down)
  then show ?thesis using pos by (simp add: rnd_def e)
qed

lemma double_of_int: "\<bar>n\<bar> < 2 ^ 53 \<Longrightarrow> double (real_of_int n)"
proof -
  assume n: "\<bar>n\<bar> < 2 ^ 53"
  have "real_of_int n = real_of_int n * pow2 0" by simp
  then have "representable (real_of_int n)"
    unfolding representable_def using n by (intro exI[of _ n] exI[of _ 0]) simp
  moreover have "\<bar>real_of_int n\<bar> < 2 ^ 53"
    using n by (metis of_int_abs of_int_less_iff of_int_numeral of_int_power)
  then have "\<bar>real_of_int n\<bar> \<le> MAX_VALUE" by (simp add: MAX_VALUE_def)
  ultimately show ?thesis by (simp add: double_def)
qed

lemma double_small: "double 10" "double 12" "double 20" "double 30" "double 0" "double 2"
  using double_of_int[of 10] double_of_int[of 12] double_of_int[of 20] double_of_int[of 30]
    double_of_int[of 0] double_of_int[of 2]
  by simp_all

lemma fl_double: "double d \<Longrightarrow> fl d = Some d"
  by (simp add: fl_def double_def rnd_representable_eq)



lemma Linear_same: "double v \<Longrightarrow> Linear v v t = Some v"
proof -
  assume d: "double v"
  have "fl (v - v) = Some 0" using fl_double[OF double_small(5)] by simp
  moreover have "fl (0 * t) = Some 0" using fl_double[OF double_small(5)] by simp
  moreover have "fl (0 + v) = Some v" using fl_double[OF d] by simp
  ultimately show ?thesis by (simp only: Linear_def option.case)
qed

subsection \<open>A displayed position that no longer moves\<close>


lemma fl_gap: "fl (30 - (30 - 1 / 2 ^ 46)) = Some (1 / 2 ^ 46)"
proof -
  have "rnd (pow2 (- 46)) = pow2 (- 46)" by (rule rnd_pow2) simp
  then have "rnd (1 / 2 ^ 46) = 1 / 2 ^ 46" by (simp add: pow2_neg_numeral)
  then show ?thesis by (simp add: fl_def MAX_VALUE_def)
qed

lemma fl_tenth_gap: "fl (1 / 2 ^ 46 * point1) = Some (3602879701896397 / 2 ^ 101)"
proof -
  have "1 / 2 ^ 46 * point1 = real_of_int 3602879701896397 * pow2 (- 101)"
    by (simp add: point1_def pow2_neg_numeral)
  moreover have "representable (real_of_int 3602879701896397 * pow2 (- 101))"
    unfolding representable_def by (intro exI[of _ 3602879701896397] exI[of _ "- 101"]) simp
  ultimately have "rnd (1 / 2 ^ 46 * point1) = 1 / 2 ^ 46 * point1"
    by (simp only: rnd_representable_eq)
  then show ?thesis by (simp add: fl_def MAX_VALUE_def) (simp add: point1_def)
qed

lemma fl_stall: "fl (3602879701896397 / 2 ^ 101 + (30 - 1 / 2 ^ 46)) = Some (30 - 1 / 2 ^ 46)"
proof -
  have "rnd (3602879701896397 / 2 ^ 101 + (30 - 1 / 2 ^ 46))
        = real_of_int 8444249301319676 * pow2 (4 - 52)"
    by (rule rnd_eq_down) (simp_all add: pow2_numeral pow2_neg_numeral)
  also have "\<dots> = 30 - 1 / 2 ^ 46" by (simp add: pow2_neg_numeral)
  finally show ?thesis by (simp add: fl_def MAX_VALUE_def)
qed

lemma Linear_stalled: "Linear (30 - 1 / 2 ^ 46) 30 point1 = Some (30 - 1 / 2 ^ 46)"
  by (simp only: Linear_def fl_gap fl_tenth_gap fl_stall option.case)

section \<open>Interpolation of enemy positions\<close>
















lemma stalledEnemy_fields:
  "sprite stalledEnemy = \<lparr>pos_x = 30 - 1 / 2 ^ 46, pos_y = 20\<rparr>"
  "targetPosition stalledEnemy = \<lparr>pos_x = 30, pos_y = 20\<rparr>"
  "healthBar stalledEnemy = \<lparr>pos_x = 30 - 1 / 2 ^ 46, pos_y = - 10\<rparr>"
  by (simp_all add: stalledEnemy_def createEnemy_def)

lemma interpolateEnemy_stalled: "interpolateEnemy stalledEnemy = Some stalledEnemy"
proof -
  have x: "Linear (pos_x (sprite stalledEnemy)) (pos_x (targetPosition stalledEnemy)) point1
             = Some (30 - 1 / 2 ^ 46)"
    using Linear_stalled by (simp only: stalledEnemy_fields vec.simps)
  have y: "Linear 20 20 point1 = Some 20"
    using double_small(3) by (rule Linear_same)
  show ?thesis
    unfolding interpolateEnemy_def Let_def x option.case
    by (simp add: stalledEnemy_fields y)
qed


lemma renderFrames_stalled: "renderFrames n stalledScene = Some stalledScene"
  by (induction n)
     (simp_all add: interpolateEnemyPositions_def stalledScene_def interpolateEnemy_stalled)

section \<open>The attack animation\<close>

lemma playAnimation_ignored: "isAttacking_c c \<Longrightarrow> playAnimation a d c = c"
  by (simp add: playAnimation_def)

text \<open>Starting an attack sets the flag, plays the attack animation and registers one
  listener.\<close>

lemma playAnimation_attack:
  "\<not> isAttacking_c c \<Longrightarrow>
     playAnimation ''attack'' d c =
       c\<lparr>isAttacking_c := True, anim := ''attack_'' @ d, onComplete := Suc (onComplete c)\<rparr>"
  by (simp add: playAnimation_def)

lemma attackComplete_result:
  "attackComplete c =
     c\<lparr>isAttacking_c := False,
       anim := (if isMoving c then ''walk_'' else ''idle_'') @ currentDirection c\<rparr>"
  by (simp add: attackComplete_def playAnimation_def Let_def)

lemma animationcomplete_one:
  "onComplete c = Suc 0 \<Longrightarrow>
     animationcomplete c =
       c\<lparr>onComplete := 0, isAttacking_c := False,
         anim := (if isMoving c then ''walk_'' else ''idle_'') @ currentDirection c\<rparr>"
  by (simp add: animationcomplete_def attackComplete_result)

text \<open>The constructor establishes \<open>listenerPending\<close> and every method of the class and
  the completion event keep it, so the attack flag is never set without its listener.\<close>

lemma listenerPending_new: "listenerPending (newClientPlayer data)"
  by (simp add: listenerPending_def newClientPlayer_def updateExpBar_def Let_def)

lemma listenerPending_updates:
  "listenerPending c \<Longrightarrow> listenerPending (updatePosition pos c)"
  "listenerPending c \<Longrightarrow> listenerPending (updateDirection d c)"
  "listenerPending c \<Longrightarrow> listenerPending (updateAction a c)"
  "listenerPending c \<Longrightarrow> listenerPending (updateExpBar e l c)"
  by (simp_all add: listenerPending_def updatePosition_def updateDirection_def updateAction_def
        updateExpBar_def Let_def)

lemma listenerPending_playAnimation:
  "listenerPending c \<Longrightarrow> listenerPending (playAnimation a d c)"
  by (simp add: listenerPending_def playAnimation_def)

lemma listenerPending_animationcomplete:
  assumes "listenerPending c"
  shows "listenerPending (animationcomplete c)"
proof (cases "isAttacking_c c")
  case True
  then have "onComplete c = Suc 0"
    using assms by (simp add: listenerPending_def)
  then show ?thesis
    by (simp add: listenerPending_def animationcomplete_one)
next
  case False
  then have "onComplete c = 0"
    using assms by (simp add: listenerPending_def)
  then show ?thesis
    using False by (simp add: listenerPending_def animationcomplete_def)
qed

text \<open>
  Claim C9. While the flag \<open>isAttacking\<close> of the client's player is set, with the listener
  of the attack pending, every \<open>playAnimation\<close> call returns the player unchanged, and so
  does any sequence of such calls. When the animation completes, the listener clears the
  flag and plays \<open>walk\<close> in the current direction if \<open>isMoving\<close> holds and \<open>idle\<close>
  otherwise.
\<close>

theorem attack_animation_lock:
  assumes "isAttacking_c c" and "onComplete c = Suc 0"
  shows "playAnimation a d c = c
     \<and> fold (\<lambda>(a, d). playAnimation a d) calls c = c
     \<and> \<not> isAttacking_c (animationcomplete c)
     \<and> anim (animationcomplete c) =
         (if isMoving c then ''walk_'' else ''idle_'') @ currentDirection c
     \<and> isMoving (animationcomplete c) = isMoving c
     \<and> onComplete (animationcomplete c) = 0"
proof -
  have "fold (\<lambda>(a, d). playAnimation a d) calls c = c"
    using assms(1) by (induction calls) (simp_all add: playAnimation_ignored case_prod_unfold)
  then show ?thesis
    using assms by (simp add: playAnimation_ignored animationcomplete_one)
qed

text \<open>A new player starts an attack facing right; an "idle" update arrives while it plays;
  then the animation completes.\<close>

theorem attack_animation_lock_witness:
  "isAttacking_c (playAnimation ''attack'' ''right'' (newClientPlayer examplePlayerData))
   \<and> onComplete (playAnimation ''attack'' ''right'' (newClientPlayer examplePlayerData)) = Suc 0
   \<and> playAnimation ''idle'' ''right''
        (playAnimation ''attack'' ''right'' (newClientPlayer examplePlayerData))
       = playAnimation ''attack'' ''right'' (newClientPlayer examplePlayerData)
   \<and> anim (animationcomplete
        (playAnimation ''attack'' ''right'' (newClientPlayer examplePlayerData))) = ''idle_right''"
proof -
  let ?c = "playAnimation ''attack'' ''right'' (newClientPlayer examplePlayerData)"
  have h: "isAttacking_c ?c" "onComplete ?c = Suc 0"
    and st: "isMoving ?c = False" "currentDirection ?c = ''right''"
    by (simp_all add: playAnimation_def newClientPlayer_def updateExpBar_def Let_def)
  show ?thesis
    using h attack_animation_lock[OF h, of "''idle''" "''right''" "[]"]
    by (simp add: st)
qed

section \<open>Reconciliation with a snapshot\<close>

lemma getProp_Own: "getProp l k = Own v \<longleftrightarrow> map_of l k = Some v"
  by (simp add: getProp_def split: option.splits)

lemma map_of_Some_key: "map_of l k = Some v \<Longrightarrow> k \<in> fst ` set l"
  by (metis domI dom_map_of_conv_image_fst)

lemma getProp_Missing: "getProp l k = Missing \<longleftrightarrow> k \<notin> fst ` set l \<and> k \<notin> set objectPrototype"
proof (cases "map_of l k")
  case None
  then have "k \<notin> fst ` set l" by (simp add: map_of_eq_None_iff)
  then show ?thesis by (simp add: getProp_def None)
next
  case (Some v)
  then show ?thesis using map_of_Some_key[OF Some] by (simp add: getProp_def)
qed

lemma getProp_Inherited: "getProp l k = Inherited \<longleftrightarrow> k \<notin> fst ` set l \<and> k \<in> set objectPrototype"
proof (cases "map_of l k")
  case None
  then have "k \<notin> fst ` set l" by (simp add: map_of_eq_None_iff)
  then show ?thesis by (simp add: getProp_def None)
next
  case (Some v)
  then show ?thesis using map_of_Some_key[OF Some] by (simp add: getProp_def)
qed

lemma getProp_Missing_keys: "getProp l k = Missing \<longleftrightarrow> k \<notin> keysOf l \<and> k \<notin> set objectPrototype"
  by (simp add: getProp_Missing keysOf_def)

lemma keysOf_update: "keysOf (AList.update k v l) = insert k (keysOf l)"
  by (simp add: keysOf_def dom_map_of_conv_image_fst[symmetric] AList.update_conv')

lemma keysOf_map_of: "map_of l k = Some v \<Longrightarrow> k \<in> keysOf l"
  unfolding keysOf_def by (metis domI dom_map_of_conv_image_fst)

lemma keysOf_getProp_Own: "getProp l k = Own v \<Longrightarrow> k \<in> keysOf l"
  by (simp add: getProp_Own keysOf_map_of)

subsection \<open>What each loop leaves alone\<close>

lemma syncPlayer_Inl: "syncPlayer k d s = Inl err \<Longrightarrow> err = (TypeError, s)"
  by (cases "getProp (players s) k") (simp_all add: syncPlayer_def Let_def)

lemma syncPlayer_Inr:
  assumes "syncPlayer k d s = Inr s'"
  shows "\<exists>ps. s' = s\<lparr>players := ps\<rparr>"
proof (cases "getProp (players s) k")
  case (Own c)
  then have "s\<lparr>players := AList.update k
        (if k = playerId_m s
         then updateExpBar (experience d) (level d)
               (playAnimationDefault (action d) (updateAction (action d)
                 (updateDirection (direction d) (updatePosition (position d) c))))
         else playAnimationDefault (action d) (updateAction (action d)
                 (updateDirection (direction d) (updatePosition (position d) c))))
        (players s)\<rparr> = s'"
    using assms by (simp add: syncPlayer_def Let_def)
  then show ?thesis by blast
next
  case Inherited
  then show ?thesis using assms by (simp add: syncPlayer_def)
next
  case Missing
  have id: "s = s\<lparr>players := players s\<rparr>" by simp
  show ?thesis
  proof (cases "k = playerId_m s")
    case True
    then have "s' = s\<lparr>players := AList.update (playerId_m s) (newClientPlayer d) (players s)\<rparr>"
      using assms Missing by (simp add: syncPlayer_def createPlayer_def)
    then show ?thesis by blast
  next
    case False
    then have s': "s' = createOtherPlayer d s"
      using assms Missing by (simp add: syncPlayer_def)
    show ?thesis
    proof (cases "getProp (players s) (playerId d) = Missing")
      case True
      then have "s' = s\<lparr>players := AList.update (playerId d) (newClientPlayer d) (players s)\<rparr>"
        by (simp add: s' createOtherPlayer_def)
      then show ?thesis by blast
    next
      case False
      then have "s' = s" by (simp add: s' createOtherPlayer_def)
      then show ?thesis using id by metis
    qed
  qed
qed

lemma syncPlayer_other:
  assumes "syncPlayer k d s = Inr s'"
  shows "enemies s' = enemies s" "playerId_m s' = playerId_m s" "destroyed s' = destroyed s"
proof -
  obtain ps where "s' = s\<lparr>players := ps\<rparr>" using syncPlayer_Inr[OF assms] by blast
  then show "enemies s' = enemies s" "playerId_m s' = playerId_m s" "destroyed s' = destroyed s"
    by simp_all
qed

lemma syncPlayers_other:
  "syncPlayers l s = Inr s' \<Longrightarrow>
     enemies s' = enemies s \<and> playerId_m s' = playerId_m s \<and> destroyed s' = destroyed s"
proof (induction l arbitrary: s)
  case Nil
  then show ?case by simp
next
  case (Cons p rest)
  obtain k d where p: "p = (k, d)" by (cases p)
  obtain s1 where s1: "syncPlayer k d s = Inr s1" "syncPlayers rest s1 = Inr s'"
    using Cons.prems by (cases "syncPlayer k d s") (simp_all add: p)
  show ?case
    using Cons.IH[OF s1(2)] syncPlayer_other[OF s1(1)] by simp
qed

lemma removePlayers_other:
  "enemies (removePlayers ks sp s) = enemies s"
  "playerId_m (removePlayers ks sp s) = playerId_m s"
  by (induction ks arbitrary: s) simp_all

lemma syncEnemy_Inl: "syncEnemy k d s = Inl err \<Longrightarrow> err = (TypeError, s)"
  by (cases "getProp (enemies s) k") (simp_all add: syncEnemy_def)

lemma syncEnemy_Inr:
  assumes "syncEnemy k d s = Inr s'"
  shows "\<exists>es. s' = s\<lparr>enemies := es\<rparr>"
proof (cases "getProp (enemies s) k")
  case (Own e)
  then have "s' = s\<lparr>enemies := AList.update k (updateEnemy d e) (enemies s)\<rparr>"
    using assms by (simp add: syncEnemy_def)
  then show ?thesis by blast
next
  case Inherited
  then show ?thesis using assms by (simp add: syncEnemy_def)
next
  case Missing
  then have "s' = s\<lparr>enemies := AList.update k (createEnemy d) (enemies s)\<rparr>"
    using assms by (simp add: syncEnemy_def)
  then show ?thesis by blast
qed

lemma syncEnemy_other:
  assumes "syncEnemy k d s = Inr s'"
  shows "players s' = players s" "playerId_m s' = playerId_m s" "destroyed s' = destroyed s"
proof -
  obtain es where "s' = s\<lparr>enemies := es\<rparr>" using syncEnemy_Inr[OF assms] by blast
  then show "players s' = players s" "playerId_m s' = playerId_m s" "destroyed s' = destroyed s"
    by simp_all
qed

lemma syncEnemies_other:
  "syncEnemies l s = Inr s' \<Longrightarrow>
     players s' = players s \<and> playerId_m s' = playerId_m s \<and> destroyed s' = destroyed s"
proof (induction l arbitrary: s)
  case Nil
  then show ?case by simp
next
  case (Cons p rest)
  obtain k d where p: "p = (k, d)" by (cases p)
  obtain s1 where s1: "syncEnemy k d s = Inr s1" "syncEnemies rest s1 = Inr s'"
    using Cons.prems by (cases "syncEnemy k d s") (simp_all add: p)
  show ?case
    using Cons.IH[OF s1(2)] syncEnemy_other[OF s1(1)] by simp
qed

lemma removeEnemies_other:
  "players (removeEnemies ks se s) = players s"
  "playerId_m (removeEnemies ks se s) = playerId_m s"
  by (induction ks arbitrary: s) simp_all

subsection \<open>The removal loops\<close>

lemma removePlayers_players:
  "players (removePlayers ks sp s) =
     filter (\<lambda>p. \<not> (fst p \<in> set ks \<and> getProp sp (fst p) = Missing)) (players s)"
proof (induction ks arbitrary: s)
  case Nil
  show ?case by simp
next
  case (Cons k ks)
  show ?case
    by (auto simp: Cons.IH AList.delete_eq intro: filter_cong)
qed

lemma removePlayers_destroyed:
  "destroyed (removePlayers ks sp s) =
     destroyed s @ concat (map destroyPlayer (filter (\<lambda>k. getProp sp k = Missing) ks))"
  by (induction ks arbitrary: s) simp_all


lemma removeEnemies_enemies:
  "enemies (removeEnemies ks se s) =
     filter (\<lambda>p. \<not> (fst p \<in> set ks \<and> getProp se (fst p) = Missing)) (enemies s)"
proof (induction ks arbitrary: s)
  case Nil
  show ?case by simp
next
  case (Cons k ks)
  show ?case
    by (auto simp: Cons.IH AList.delete_eq intro: filter_cong)
qed

lemma removeEnemies_destroyed:
  "destroyed (removeEnemies ks se s) =
     destroyed s @ concat (map (\<lambda>k. [EnemySprite k, EnemyHealthBar k])
                       (filter (\<lambda>k. getProp se k = Missing) ks))"
  by (induction ks arbitrary: s) simp_all


subsection \<open>The update loops: keys\<close>

lemma syncPlayer_keys:
  assumes "syncPlayer k' d s = Inr s'"
  shows "keysOf (players s') = keysOf (players s)
       \<or> (\<exists>k. k \<notin> set objectPrototype \<and> keysOf (players s') = insert k (keysOf (players s)))"
proof (cases "getProp (players s) k'")
  case (Own c)
  then have "k' \<in> keysOf (players s)" by (rule keysOf_getProp_Own)
  then have "insert k' (keysOf (players s)) = keysOf (players s)" by (rule insert_absorb)
  then show ?thesis
    using assms Own by (cases "k' = playerId_m s") (auto simp: syncPlayer_def Let_def keysOf_update)
next
  case Inherited
  then show ?thesis using assms by (simp add: syncPlayer_def)
next
  case Missing
  then have k': "k' \<notin> set objectPrototype" by (simp add: getProp_Missing_keys)
  show ?thesis
  proof (cases "k' = playerId_m s")
    case True
    then have "keysOf (players s') = insert k' (keysOf (players s))"
      using assms Missing by (auto simp: syncPlayer_def createPlayer_def keysOf_update)
    then show ?thesis using k' by blast
  next
    case False
    then have s': "s' = createOtherPlayer d s"
      using assms Missing by (simp add: syncPlayer_def)
    show ?thesis
    proof (cases "getProp (players s) (playerId d) = Missing")
      case True
      then have "playerId d \<notin> set objectPrototype" by (simp add: getProp_Missing_keys)
      moreover have "keysOf (players s') = insert (playerId d) (keysOf (players s))"
        using True by (simp add: s' createOtherPlayer_def keysOf_update)
      ultimately show ?thesis by blast
    next
      case False
      then show ?thesis by (simp add: s' createOtherPlayer_def)
    qed
  qed
qed

lemma syncPlayers_keys:
  "syncPlayers l s = Inr s' \<Longrightarrow>
     keysOf (players s) \<subseteq> keysOf (players s')
     \<and> keysOf (players s') - keysOf (players s) \<subseteq> - set objectPrototype"
proof (induction l arbitrary: s)
  case Nil
  then show ?case by simp
next
  case (Cons p rest)
  obtain k d where p: "p = (k, d)" by (cases p)
  obtain s1 where s1: "syncPlayer k d s = Inr s1" "syncPlayers rest s1 = Inr s'"
    using Cons.prems by (cases "syncPlayer k d s") (simp_all add: p)
  have a: "keysOf (players s) \<subseteq> keysOf (players s1)"
      "keysOf (players s1) - keysOf (players s) \<subseteq> - set objectPrototype"
    using syncPlayer_keys[OF s1(1)] by auto
  have b: "keysOf (players s1) \<subseteq> keysOf (players s')"
      "keysOf (players s') - keysOf (players s1) \<subseteq> - set objectPrototype"
    using Cons.IH[OF s1(2)] by simp_all
  show ?case using a b by auto
qed

lemma syncEnemy_keys:
  assumes "syncEnemy k' d s = Inr s'"
  shows "keysOf (enemies s') = keysOf (enemies s)
       \<or> (\<exists>k. k \<notin> set objectPrototype \<and> keysOf (enemies s') = insert k (keysOf (enemies s)))"
proof (cases "getProp (enemies s) k'")
  case (Own c)
  then have "k' \<in> keysOf (enemies s)" by (rule keysOf_getProp_Own)
  then have "insert k' (keysOf (enemies s)) = keysOf (enemies s)" by (rule insert_absorb)
  then show ?thesis
    using assms Own by (auto simp: syncEnemy_def keysOf_update)
next
  case Inherited
  then show ?thesis using assms by (simp add: syncEnemy_def)
next
  case Missing
  then have k': "k' \<notin> set objectPrototype" by (simp add: getProp_Missing_keys)
  have "keysOf (enemies s') = insert k' (keysOf (enemies s))"
    using assms Missing by (auto simp: syncEnemy_def keysOf_update)
  then show ?thesis using k' by blast
qed

lemma syncEnemies_keys:
  "syncEnemies l s = Inr s' \<Longrightarrow>
     keysOf (enemies s) \<subseteq> keysOf (enemies s')
     \<and> keysOf (enemies s') - keysOf (enemies s) \<subseteq> - set objectPrototype"
proof (induction l arbitrary: s)
  case Nil
  then show ?case by simp
next
  case (Cons p rest)
  obtain k d where p: "p = (k, d)" by (cases p)
  obtain s1 where s1: "syncEnemy k d s = Inr s1" "syncEnemies rest s1 = Inr s'"
    using Cons.prems by (cases "syncEnemy k d s") (simp_all add: p)
  have a: "keysOf (enemies s) \<subseteq> keysOf (enemies s1)"
      "keysOf (enemies s1) - keysOf (enemies s) \<subseteq> - set objectPrototype"
    using syncEnemy_keys[OF s1(1)] by auto
  have b: "keysOf (enemies s1) \<subseteq> keysOf (enemies s')"
      "keysOf (enemies s') - keysOf (enemies s1) \<subseteq> - set objectPrototype"
    using Cons.IH[OF s1(2)] by simp_all
  show ?case using a b by auto
qed

subsection \<open>Completion\<close>

lemma syncPlayer_total:
  assumes "k \<notin> set objectPrototype"
  shows "\<exists>s'. syncPlayer k d s = Inr s'"
proof (cases "getProp (players s) k")
  case (Own c)
  then show ?thesis by (simp add: syncPlayer_def Let_def)
next
  case Inherited
  then show ?thesis using assms by (simp add: getProp_Inherited)
next
  case Missing
  then show ?thesis by (simp add: syncPlayer_def)
qed

lemma syncPlayers_total:
  "keysOf l \<inter> set objectPrototype = {} \<Longrightarrow> \<exists>s'. syncPlayers l s = Inr s'"
proof (induction l arbitrary: s)
  case Nil
  show ?case by simp
next
  case (Cons p rest)
  obtain k d where p: "p = (k, d)" by (cases p)
  have "k \<notin> set objectPrototype" using Cons.prems by (auto simp: keysOf_def p)
  then obtain s1 where s1: "syncPlayer k d s = Inr s1"
    using syncPlayer_total by blast
  have "keysOf rest \<inter> set objectPrototype = {}" using Cons.prems by (auto simp: keysOf_def)
  then show ?case using Cons.IH[of s1] by (simp add: p s1)
qed

lemma syncEnemy_total:
  assumes "k \<notin> set objectPrototype"
  shows "\<exists>s'. syncEnemy k d s = Inr s'"
proof (cases "getProp (enemies s) k")
  case (Own c)
  then show ?thesis by (simp add: syncEnemy_def)
next
  case Inherited
  then show ?thesis using assms by (simp add: getProp_Inherited)
next
  case Missing
  then show ?thesis by (simp add: syncEnemy_def)
qed

lemma syncEnemies_total:
  "keysOf l \<inter> set objectPrototype = {} \<Longrightarrow> \<exists>s'. syncEnemies l s = Inr s'"
proof (induction l arbitrary: s)
  case Nil
  show ?case by simp
next
  case (Cons p rest)
  obtain k d where p: "p = (k, d)" by (cases p)
  have "k \<notin> set objectPrototype" using Cons.prems by (auto simp: keysOf_def p)
  then obtain s1 where s1: "syncEnemy k d s = Inr s1"
    using syncEnemy_total by blast
  have "keysOf rest \<inter> set objectPrototype = {}" using Cons.prems by (auto simp: keysOf_def)
  then show ?case using Cons.IH[of s1] by (simp add: p s1)
qed

text \<open>The four stages of a call that completes.\<close>

lemma updateGameState_Inr:
  "updateGameState state s = Inr s' \<longleftrightarrow>
     (\<exists>s1 s3. syncPlayers (statePlayers state) s = Inr s1
        \<and> syncEnemies (stateEnemies state)
             (removePlayers (map fst (players s1)) (statePlayers state) s1) = Inr s3
        \<and> s' = removeEnemies (map fst (enemies s3)) (stateEnemies state) s3)"
proof (cases "syncPlayers (statePlayers state) s")
  case (Inl err)
  then show ?thesis by (simp add: updateGameState_def)
next
  case (Inr s1)
  show ?thesis
  proof (cases "syncEnemies (stateEnemies state)
             (removePlayers (map fst (players s1)) (statePlayers state) s1)")
    case (Inl err)
    then show ?thesis using Inr by (simp add: updateGameState_def Let_def)
  next
    case (Inr s3)
    then show ?thesis using \<open>syncPlayers (statePlayers state) s = Inr s1\<close>
      by (auto simp: updateGameState_def Let_def)
  qed
qed

lemma updateGameState_total:
  assumes "keysOf (statePlayers state) \<inter> set objectPrototype = {}"
      and "keysOf (stateEnemies state) \<inter> set objectPrototype = {}"
  shows "\<exists>s'. updateGameState state s = Inr s'"
proof -
  obtain s1 where s1: "syncPlayers (statePlayers state) s = Inr s1"
    using syncPlayers_total[OF assms(1)] by blast
  obtain s3 where s3: "syncEnemies (stateEnemies state)
             (removePlayers (map fst (players s1)) (statePlayers state) s1) = Inr s3"
    using syncEnemies_total[OF assms(2)] by blast
  show ?thesis using s1 s3 by (simp add: updateGameState_Inr)
qed

subsection \<open>After a call that completes\<close>

lemma keysOf_removePlayers:
  "keysOf (players (removePlayers (map fst (players s1)) sp s1))
     = {k \<in> keysOf (players s1). getProp sp k \<noteq> Missing}"
  unfolding removePlayers_players keysOf_def by force

lemma keysOf_removeEnemies:
  "keysOf (enemies (removeEnemies (map fst (enemies s3)) se s3))
     = {k \<in> keysOf (enemies s3). getProp se k \<noteq> Missing}"
  unfolding removeEnemies_enemies keysOf_def by force

lemma stages:
  assumes "updateGameState state s = Inr s'"
  obtains s1 s3 where "syncPlayers (statePlayers state) s = Inr s1"
    and "syncEnemies (stateEnemies state)
             (removePlayers (map fst (players s1)) (statePlayers state) s1) = Inr s3"
    and "s' = removeEnemies (map fst (enemies s3)) (stateEnemies state) s3"
    and "players s' = players (removePlayers (map fst (players s1)) (statePlayers state) s1)"
    and "keysOf (players s') = {k \<in> keysOf (players s1). getProp (statePlayers state) k \<noteq> Missing}"
    and "keysOf (enemies s') = {k \<in> keysOf (enemies s3). getProp (stateEnemies state) k \<noteq> Missing}"
    and "keysOf (enemies s) \<subseteq> keysOf (enemies s3)"
    and "keysOf (enemies s3) - keysOf (enemies s) \<subseteq> - set objectPrototype"
    and "keysOf (players s) \<subseteq> keysOf (players s1)"
    and "keysOf (players s1) - keysOf (players s) \<subseteq> - set objectPrototype"
    and "destroyed s' = destroyed s
           @ concat (map destroyPlayer
               (filter (\<lambda>k. getProp (statePlayers state) k = Missing) (map fst (players s1))))
           @ concat (map (\<lambda>k. [EnemySprite k, EnemyHealthBar k])
               (filter (\<lambda>k. getProp (stateEnemies state) k = Missing) (map fst (enemies s3))))"
proof -
  obtain s1 s3 where s1: "syncPlayers (statePlayers state) s = Inr s1"
    and s3: "syncEnemies (stateEnemies state)
             (removePlayers (map fst (players s1)) (statePlayers state) s1) = Inr s3"
    and s': "s' = removeEnemies (map fst (enemies s3)) (stateEnemies state) s3"
    using assms by (auto simp: updateGameState_Inr)
  let ?s2 = "removePlayers (map fst (players s1)) (statePlayers state) s1"
  have p3: "players s3 = players ?s2" and d3: "destroyed s3 = destroyed ?s2"
    using syncEnemies_other[OF s3] by simp_all
  have e1: "enemies s1 = enemies s" and d1: "destroyed s1 = destroyed s"
    using syncPlayers_other[OF s1] by simp_all
  have e2: "enemies ?s2 = enemies s" by (simp add: removePlayers_other e1)
  have ps: "players s' = players ?s2" by (simp add: s' removeEnemies_other p3)
  have k1: "keysOf (players s') = {k \<in> keysOf (players s1). getProp (statePlayers state) k \<noteq> Missing}"
    by (simp only: ps keysOf_removePlayers)
  have k2: "keysOf (enemies s') = {k \<in> keysOf (enemies s3). getProp (stateEnemies state) k \<noteq> Missing}"
    by (simp only: s' keysOf_removeEnemies)
  have k3: "keysOf (enemies s) \<subseteq> keysOf (enemies s3)"
      "keysOf (enemies s3) - keysOf (enemies s) \<subseteq> - set objectPrototype"
    using syncEnemies_keys[OF s3] by (simp_all add: e2)
  have k4: "keysOf (players s) \<subseteq> keysOf (players s1)"
      "keysOf (players s1) - keysOf (players s) \<subseteq> - set objectPrototype"
    using syncPlayers_keys[OF s1] by simp_all
  have d: "destroyed s' = destroyed s
           @ concat (map destroyPlayer
               (filter (\<lambda>k. getProp (statePlayers state) k = Missing) (map fst (players s1))))
           @ concat (map (\<lambda>k. [EnemySprite k, EnemyHealthBar k])
               (filter (\<lambda>k. getProp (stateEnemies state) k = Missing) (map fst (enemies s3))))"
    by (simp add: s' removeEnemies_destroyed d3 removePlayers_destroyed d1)
  show thesis using that[OF s1 s3 s' ps k1 k2 k3 k4 d] .
qed

lemma tracked_subset:
  assumes "updateGameState state s = Inr s'" "noProtoKeys s"
  shows "keysOf (players s') \<subseteq> keysOf (statePlayers state)
       \<and> keysOf (enemies s') \<subseteq> keysOf (stateEnemies state)
       \<and> noProtoKeys s'"
proof (rule stages[OF assms(1)])
  fix s1 s3
  assume k1: "keysOf (players s') = {k \<in> keysOf (players s1). getProp (statePlayers state) k \<noteq> Missing}"
    and k2: "keysOf (enemies s') = {k \<in> keysOf (enemies s3). getProp (stateEnemies state) k \<noteq> Missing}"
    and k3: "keysOf (enemies s3) - keysOf (enemies s) \<subseteq> - set objectPrototype"
    and k4: "keysOf (players s1) - keysOf (players s) \<subseteq> - set objectPrototype"
  have np: "keysOf (players s) \<inter> set objectPrototype = {}"
    and ne: "keysOf (enemies s) \<inter> set objectPrototype = {}"
    using assms(2) by (simp_all add: noProtoKeys_def)
  have p1: "keysOf (players s1) \<inter> set objectPrototype = {}" using np k4 by blast
  have p3: "keysOf (enemies s3) \<inter> set objectPrototype = {}" using ne k3 by blast
  have a: "keysOf (players s') \<subseteq> keysOf (statePlayers state)"
    unfolding k1 using p1 by (auto simp: getProp_Missing_keys)
  have b: "keysOf (enemies s') \<subseteq> keysOf (stateEnemies state)"
    unfolding k2 using p3 by (auto simp: getProp_Missing_keys)
  have c: "noProtoKeys s'"
    unfolding noProtoKeys_def k1 k2 using p1 p3 by blast
  show ?thesis using a b c by simp
qed

lemma missing_player_destroyed:
  assumes "updateGameState state s = Inr s'" "noProtoKeys s"
      and "k \<in> keysOf (players s)" "k \<notin> keysOf (statePlayers state)"
  shows "k \<notin> keysOf (players s')
       \<and> {PlayerSprite k, PlayerLabel k, PlayerExpBar k, PlayerLevelText k}
           \<subseteq> set (drop (length (destroyed s)) (destroyed s'))"
proof (rule stages[OF assms(1)])
  fix s1 s3
  assume k4: "keysOf (players s) \<subseteq> keysOf (players s1)"
    and d: "destroyed s' = destroyed s
           @ concat (map destroyPlayer
               (filter (\<lambda>k. getProp (statePlayers state) k = Missing) (map fst (players s1))))
           @ concat (map (\<lambda>k. [EnemySprite k, EnemyHealthBar k])
               (filter (\<lambda>k. getProp (stateEnemies state) k = Missing) (map fst (enemies s3))))"
  have a: "k \<notin> keysOf (players s')"
    using tracked_subset[OF assms(1,2)] assms(4) by blast
  have "k \<notin> set objectPrototype"
    using assms(2,3) by (auto simp: noProtoKeys_def)
  then have m: "getProp (statePlayers state) k = Missing"
    using assms(4) by (simp add: getProp_Missing_keys)
  have "k \<in> set (map fst (players s1))"
    using k4 assms(3) by (auto simp: keysOf_def)
  then have "k \<in> set (filter (\<lambda>k. getProp (statePlayers state) k = Missing) (map fst (players s1)))"
    using m by simp
  then have "set (destroyPlayer k) \<subseteq> set (drop (length (destroyed s)) (destroyed s'))"
    by (simp only: d append_eq_conv_conj drop_append) auto
  then have "{PlayerSprite k, PlayerLabel k, PlayerExpBar k, PlayerLevelText k}
           \<subseteq> set (drop (length (destroyed s)) (destroyed s'))"
    by (simp add: destroyPlayer_def)
  then show ?thesis using a by simp
qed

lemma missing_enemy_destroyed:
  assumes "updateGameState state s = Inr s'" "noProtoKeys s"
      and "k \<in> keysOf (enemies s)" "k \<notin> keysOf (stateEnemies state)"
  shows "k \<notin> keysOf (enemies s')
       \<and> {EnemySprite k, EnemyHealthBar k}
           \<subseteq> set (drop (length (destroyed s)) (destroyed s'))"
proof (rule stages[OF assms(1)])
  fix s1 s3
  assume k3: "keysOf (enemies s) \<subseteq> keysOf (enemies s3)"
    and d: "destroyed s' = destroyed s
           @ concat (map destroyPlayer
               (filter (\<lambda>k. getProp (statePlayers state) k = Missing) (map fst (players s1))))
           @ concat (map (\<lambda>k. [EnemySprite k, EnemyHealthBar k])
               (filter (\<lambda>k. getProp (stateEnemies state) k = Missing) (map fst (enemies s3))))"
  have a: "k \<notin> keysOf (enemies s')"
    using tracked_subset[OF assms(1,2)] assms(4) by blast
  have "k \<notin> set objectPrototype"
    using assms(2,3) by (auto simp: noProtoKeys_def)
  then have m: "getProp (stateEnemies state) k = Missing"
    using assms(4) by (simp add: getProp_Missing_keys)
  have "k \<in> set (map fst (enemies s3))"
    using k3 assms(3) by (auto simp: keysOf_def)
  then have "k \<in> set (filter (\<lambda>k. getProp (stateEnemies state) k = Missing) (map fst (enemies s3)))"
    using m by simp
  then have "{EnemySprite k, EnemyHealthBar k}
           \<subseteq> set (drop (length (destroyed s)) (destroyed s'))"
    by (simp only: d append_eq_conv_conj drop_append) auto
  then show ?thesis using a by simp
qed

text \<open>
  Claim C7. Let \<open>updateGameState\<close> complete on a scene none of whose tracked keys
  names an inherited property (every scene the code can reach is such a scene, see
  below). Then the keys of the tracked players are among the own keys of the snapshot's
  players, and likewise for the enemies. Every player or enemy tracked before the call and
  missing from the snapshot is no longer tracked, and its display objects (sprite, label,
  experience bar and level text of a player; sprite and health bar of an enemy) were
  destroyed by this very call: they are in the part of the log that the call appended.
\<close>

theorem snapshot_cleanup:
  assumes "updateGameState state s = Inr s'" and "noProtoKeys s"
  shows "keysOf (players s') \<subseteq> keysOf (statePlayers state)
   \<and> keysOf (enemies s') \<subseteq> keysOf (stateEnemies state)
   \<and> (\<forall>k \<in> keysOf (players s). k \<notin> keysOf (statePlayers state) \<longrightarrow>
         k \<notin> keysOf (players s')
         \<and> {PlayerSprite k, PlayerLabel k, PlayerExpBar k, PlayerLevelText k}
             \<subseteq> set (drop (length (destroyed s)) (destroyed s')))
   \<and> (\<forall>k \<in> keysOf (enemies s). k \<notin> keysOf (stateEnemies state) \<longrightarrow>
         k \<notin> keysOf (enemies s')
         \<and> {EnemySprite k, EnemyHealthBar k}
             \<subseteq> set (drop (length (destroyed s)) (destroyed s')))"
proof -
  have a: "keysOf (players s') \<subseteq> keysOf (statePlayers state)"
    and b: "keysOf (enemies s') \<subseteq> keysOf (stateEnemies state)"
    using tracked_subset[OF assms] by simp_all
  have c: "k \<notin> keysOf (players s')
         \<and> {PlayerSprite k, PlayerLabel k, PlayerExpBar k, PlayerLevelText k}
             \<subseteq> set (drop (length (destroyed s)) (destroyed s'))"
    if "k \<in> keysOf (players s)" "k \<notin> keysOf (statePlayers state)" for k
    using assms that by (rule missing_player_destroyed)
  have d: "k \<notin> keysOf (enemies s')
         \<and> {EnemySprite k, EnemyHealthBar k}
             \<subseteq> set (drop (length (destroyed s)) (destroyed s'))"
    if "k \<in> keysOf (enemies s)" "k \<notin> keysOf (stateEnemies state)" for k
    using assms that by (rule missing_enemy_destroyed)
  show ?thesis
    using a b c d by (intro conjI ballI impI) (assumption | simp)+
qed

subsection \<open>The tracked keys never name an inherited property\<close>

lemma noProtoKeys_newScene: "noProtoKeys (newScene pid)"
  by (simp add: noProtoKeys_def newScene_def keysOf_def)

lemma noProtoKeys_syncPlayer:
  assumes "noProtoKeys s"
  shows "noProtoKeys (sceneAfter (syncPlayer k d s))"
proof (cases "syncPlayer k d s")
  case (Inl err)
  then have "err = (TypeError, s)" by (rule syncPlayer_Inl)
  then show ?thesis using assms Inl by (simp add: sceneAfter_def)
next
  case (Inr s')
  have "keysOf (players s') \<inter> set objectPrototype = {}"
    using syncPlayer_keys[OF Inr] assms by (auto simp: noProtoKeys_def)
  then show ?thesis
    using assms syncPlayer_other[OF Inr] Inr by (simp add: noProtoKeys_def sceneAfter_def)
qed

lemma noProtoKeys_syncPlayers:
  "noProtoKeys s \<Longrightarrow> noProtoKeys (sceneAfter (syncPlayers l s))"
proof (induction l arbitrary: s)
  case Nil
  then show ?case by (simp add: sceneAfter_def)
next
  case (Cons p rest)
  obtain k d where p: "p = (k, d)" by (cases p)
  show ?case
  proof (cases "syncPlayer k d s")
    case (Inl err)
    then show ?thesis using noProtoKeys_syncPlayer[OF Cons.prems, of k d] by (simp add: p)
  next
    case (Inr s1)
    then have "noProtoKeys s1"
      using noProtoKeys_syncPlayer[OF Cons.prems, of k d] by (simp add: sceneAfter_def)
    then show ?thesis using Cons.IH[of s1] Inr by (simp add: p)
  qed
qed

lemma noProtoKeys_syncEnemy:
  assumes "noProtoKeys s"
  shows "noProtoKeys (sceneAfter (syncEnemy k d s))"
proof (cases "syncEnemy k d s")
  case (Inl err)
  then have "err = (TypeError, s)" by (rule syncEnemy_Inl)
  then show ?thesis using assms Inl by (simp add: sceneAfter_def)
next
  case (Inr s')
  have "keysOf (enemies s') \<inter> set objectPrototype = {}"
    using syncEnemy_keys[OF Inr] assms by (auto simp: noProtoKeys_def)
  then show ?thesis
    using assms syncEnemy_other[OF Inr] Inr by (simp add: noProtoKeys_def sceneAfter_def)
qed

lemma noProtoKeys_syncEnemies:
  "noProtoKeys s \<Longrightarrow> noProtoKeys (sceneAfter (syncEnemies l s))"
proof (induction l arbitrary: s)
  case Nil
  then show ?case by (simp add: sceneAfter_def)
next
  case (Cons p rest)
  obtain k d where p: "p = (k, d)" by (cases p)
  show ?case
  proof (cases "syncEnemy k d s")
    case (Inl err)
    then show ?thesis using noProtoKeys_syncEnemy[OF Cons.prems, of k d] by (simp add: p)
  next
    case (Inr s1)
    then have "noProtoKeys s1"
      using noProtoKeys_syncEnemy[OF Cons.prems, of k d] by (simp add: sceneAfter_def)
    then show ?thesis using Cons.IH[of s1] Inr by (simp add: p)
  qed
qed

lemma noProtoKeys_removePlayers: "noProtoKeys s \<Longrightarrow> noProtoKeys (removePlayers ks sp s)"
  unfolding noProtoKeys_def removePlayers_other removePlayers_players keysOf_def by auto

lemma noProtoKeys_removeEnemies: "noProtoKeys s \<Longrightarrow> noProtoKeys (removeEnemies ks se s)"
  unfolding noProtoKeys_def removeEnemies_other removeEnemies_enemies keysOf_def by auto

lemma noProtoKeys_updateGameState:
  assumes "noProtoKeys s"
  shows "noProtoKeys (sceneAfter (updateGameState state s))"
proof (cases "syncPlayers (statePlayers state) s")
  case (Inl err)
  then show ?thesis
    using noProtoKeys_syncPlayers[OF assms, of "statePlayers state"]
    by (simp add: updateGameState_def sceneAfter_def)
next
  case (Inr s1)
  then have "noProtoKeys s1"
    using noProtoKeys_syncPlayers[OF assms, of "statePlayers state"] by (simp add: sceneAfter_def)
  then have s2: "noProtoKeys (removePlayers (map fst (players s1)) (statePlayers state) s1)"
    by (rule noProtoKeys_removePlayers)
  show ?thesis
  proof (cases "syncEnemies (stateEnemies state)
                  (removePlayers (map fst (players s1)) (statePlayers state) s1)")
    case (Inl err)
    then show ?thesis
      using noProtoKeys_syncEnemies[OF s2, of "stateEnemies state"] Inr
      by (simp add: updateGameState_def Let_def sceneAfter_def)
  next
    case (Inr s3)
    then have "noProtoKeys s3"
      using noProtoKeys_syncEnemies[OF s2, of "stateEnemies state"] by (simp add: sceneAfter_def)
    then have "noProtoKeys (removeEnemies (map fst (enemies s3)) (stateEnemies state) s3)"
      by (rule noProtoKeys_removeEnemies)
    then show ?thesis
      using Inr \<open>syncPlayers (statePlayers state) s = Inr s1\<close>
      by (simp add: updateGameState_def Let_def sceneAfter_def)
  qed
qed

lemma noProtoKeys_playerJoined: "noProtoKeys s \<Longrightarrow> noProtoKeys (playerJoined d s)"
  by (auto simp: playerJoined_def createOtherPlayer_def noProtoKeys_def keysOf_update
        getProp_Missing_keys)

lemma noProtoKeys_playerLeft: "noProtoKeys s \<Longrightarrow> noProtoKeys (sceneAfter (playerLeft k s))"
  by (cases "getProp (players s) k")
     (auto simp: playerLeft_def sceneAfter_def noProtoKeys_def keysOf_def AList.delete_eq)

subsection \<open>An instance\<close>

text \<open>The scene tracks p1, p2, e1, e2; the snapshot holds p1 and e1 only.\<close>

lemma example_keys:
  "keysOf (players exampleScene) = {''p1'', ''p2''}"
  "keysOf (enemies exampleScene) = {''e1'', ''e2''}"
  "keysOf (statePlayers exampleState) = {''p1''}"
  "keysOf (stateEnemies exampleState) = {''e1''}"
  by (auto simp: keysOf_def exampleScene_def exampleState_def)

lemma example_noProto:
  "noProtoKeys exampleScene"
  "keysOf (statePlayers exampleState) \<inter> set objectPrototype = {}"
  "keysOf (stateEnemies exampleState) \<inter> set objectPrototype = {}"
  by (simp_all add: noProtoKeys_def example_keys objectPrototype_def)

theorem snapshot_cleanup_witness:
  "noProtoKeys exampleScene
   \<and> (\<exists>s'. updateGameState exampleState exampleScene = Inr s'
        \<and> ''p2'' \<in> keysOf (players exampleScene) \<and> ''p2'' \<notin> keysOf (statePlayers exampleState)
        \<and> ''e2'' \<in> keysOf (enemies exampleScene) \<and> ''e2'' \<notin> keysOf (stateEnemies exampleState)
        \<and> ''p2'' \<notin> keysOf (players s') \<and> ''e2'' \<notin> keysOf (enemies s')
        \<and> {PlayerSprite ''p2'', PlayerLabel ''p2'', PlayerExpBar ''p2'', PlayerLevelText ''p2''}
             \<subseteq> set (drop (length (destroyed exampleScene)) (destroyed s'))
        \<and> {EnemySprite ''e2'', EnemyHealthBar ''e2''}
             \<subseteq> set (drop (length (destroyed exampleScene)) (destroyed s')))"
proof -
  obtain s' where s': "updateGameState exampleState exampleScene = Inr s'"
    using updateGameState_total[OF example_noProto(2,3)] by blast
  have h: "''p2'' \<in> keysOf (players exampleScene)" "''p2'' \<notin> keysOf (statePlayers exampleState)"
      "''e2'' \<in> keysOf (enemies exampleScene)" "''e2'' \<notin> keysOf (stateEnemies exampleState)"
    by (simp_all add: example_keys)
  note t = snapshot_cleanup[OF s' example_noProto(1)]
  have p: "''p2'' \<notin> keysOf (players s')
       \<and> {PlayerSprite ''p2'', PlayerLabel ''p2'', PlayerExpBar ''p2'', PlayerLevelText ''p2''}
             \<subseteq> set (drop (length (destroyed exampleScene)) (destroyed s'))"
    using t h(1,2) by (elim conjE) (drule (1) bspec, simp)
  have e: "''e2'' \<notin> keysOf (enemies s')
       \<and> {EnemySprite ''e2'', EnemyHealthBar ''e2''}
             \<subseteq> set (drop (length (destroyed exampleScene)) (destroyed s'))"
    using t h(3,4) by (elim conjE) (drule (1) bspec, simp)
  show ?thesis
    using example_noProto(1) s' h p e by (intro conjI exI[of _ s']) simp_all
qed

subsection \<open>Known entities\<close>

















end
